theory Spec2Isabelle
  imports Main "HOL-Library.AList" "HOL-Library.Char_ord" "HOL-Library.List_Lexorder"
begin

section \<open>Schema-migration manager (package migration)\<close>

text \<open>
  A shallow embedding of the Go package \<^verbatim>\<open>migration\<close>: the manager that applies and
  rolls back versioned SQL scripts per namespace, recording each version in the table
  \<^verbatim>\<open>schema_migrations\<close>.

  The manager talks to three collaborators: the database handle (\<^verbatim>\<open>m.db\<close>), the
  transactions it opens on it, and the filesystem under \<^verbatim>\<open>m.migrationsDir\<close>.  Their
  state is one record, \<open>world\<close>, threaded through every function.  Every collaborator
  call is appended to a trace with its outcome, and may report an error: the field
  \<open>faults\<close> says, for the n-th call of a run and the call made there, whether it
  reports a failure (a lost connection, a cancelled context, a constraint violation,
  an unreadable file, a failing SQL statement).  Go's \<^verbatim>\<open>error\<close> results are values:
  \<open>error option\<close> for a function returning \<^verbatim>\<open>error\<close>, \<open>error + 'a\<close> for one returning
  \<^verbatim>\<open>(T, error)\<close>.

  Not modelled: the column \<^verbatim>\<open>applied_at\<close> (wall-clock time), the informational log
  lines, and what a script does to the database beyond being executed: the scripts a
  committed transaction ran are kept, in order, in \<open>committed\<close>.
\<close>

subsection \<open>Data model\<close>

text \<open>\<^verbatim>\<open>type MigrationFile struct\<close>\<close>

record MigrationFile =
  Version :: int
  Description :: string
  Namespace :: string
  UpSQL :: string
  DownSQL :: string

text \<open>\<^verbatim>\<open>type MigrationStatus struct\<close>\<close>

record MigrationStatus =
  StatusNamespace :: string
  CurrentVersion :: int
  PendingCount :: int
  Dirty :: bool

text \<open>A row of \<^verbatim>\<open>schema_migrations\<close>: columns namespace, version, dirty.\<close>

record MigrationRecord =
  row_namespace :: string
  row_version :: int
  row_dirty :: bool

text \<open>
  The directory tree under \<^verbatim>\<open>migrationsDir\<close>, two levels deep as the code reads it:
  the root lists plain files and namespace directories, a namespace directory lists
  regular files (with their content) and subdirectories.
\<close>

datatype entry = RegFile string | SubDir

datatype node = PlainFile | Directory "(string \<times> entry) list"

text \<open>The calls the manager makes on its collaborators.\<close>

datatype call =
    DbEnsureTable
  | DbQueryCurrent string
  | DbUpsert string int bool
  | DbDelete string int
  | DbQueryNamespaces
  | RowsNext
  | RowsScan
  | RowsClose
  | DbBegin
  | TxExec nat string
  | TxCommit nat
  | TxRollback nat
  | OsStat string
  | OsReadDir string
  | OsReadDirRoot
  | OsReadFile string string

text \<open>
  What a call reported: success, the sentinel "not found" (\<^verbatim>\<open>sql.ErrNoRows\<close>, or an
  error for which \<^verbatim>\<open>os.IsNotExist\<close> holds), or any other error.
\<close>

datatype outcome = Succeeded | NotFound | Failed

text \<open>
  Errors.  \<open>CallError c\<close> is the error value the collaborator call \<open>c\<close> reported;
  \<open>Wrap ctx e\<close> is \<^verbatim>\<open>fmt.Errorf("<ctx>: %w", e)\<close>, one context per message of the source;
  the two remaining constructors are the errors the manager creates itself.
\<close>

datatype errctx =
    CreateTableCtx       \<comment> \<open>failed to create migrations table\<close>
  | GetVersionCtx        \<comment> \<open>failed to get current version\<close>
  | LoadFilesCtx         \<comment> \<open>failed to load migration files\<close>
  | ReadDirCtx           \<comment> \<open>failed to read migration directory\<close>
  | ReadFileCtx string   \<comment> \<open>failed to read migration file %s\<close>
  | ApplyCtx int         \<comment> \<open>failed to apply migration %d\<close>
  | BeginCtx             \<comment> \<open>failed to begin transaction\<close>
  | MarkDirtyCtx         \<comment> \<open>failed to mark as dirty\<close>
  | ExecSQLCtx           \<comment> \<open>failed to execute migration SQL\<close>
  | MarkCleanCtx         \<comment> \<open>failed to mark as clean\<close>
  | MigrateCoreCtx       \<comment> \<open>failed to migrate core\<close>
  | MigrateModuleCtx string  \<comment> \<open>failed to migrate module %s\<close>
  | RollbackCtx int      \<comment> \<open>failed to rollback migration %d\<close>
  | ExecDownCtx          \<comment> \<open>failed to execute down migration\<close>
  | DeleteVersionCtx     \<comment> \<open>failed to delete version\<close>

datatype error =
    CallError call
  | Wrap errctx error
  | DirtyState string int bool
      \<comment> \<open>namespace %s is in dirty state at version %d; the flag is True for the message
          of MigrateNamespace, which ends in ", manual intervention required"\<close>
  | MissingDownScript int  \<comment> \<open>no down migration found for version %d\<close>

record world =
  faults :: "nat \<Rightarrow> call \<Rightarrow> bool"
  trace :: "(call \<times> outcome) list"
  table :: "MigrationRecord list option"
    \<comment> \<open>the rows of schema_migrations; None until the table is created\<close>
  committed :: "string list"
    \<comment> \<open>the scripts executed by committed transactions, oldest first\<close>
  open_txs :: "(nat \<times> string list) list"
    \<comment> \<open>the transactions begun and neither committed nor rolled back, each with the
        scripts it has executed\<close>
  next_tx :: nat
  fs :: "(string \<times> node) list"
  warnings :: "string list"

subsection \<open>Collaborators\<close>

definition fails :: "world \<Rightarrow> call \<Rightarrow> bool" where
  "fails w c = faults w (length (trace w)) c"

definition log_call :: "call \<Rightarrow> outcome \<Rightarrow> world \<Rightarrow> world" where
  "log_call c out w = w\<lparr>trace := trace w @ [(c, out)]\<rparr>"

text \<open>
  \<^verbatim>\<open>INSERT ... ON CONFLICT (namespace, version) DO UPDATE SET dirty = $3\<close> and
  \<^verbatim>\<open>DELETE ... WHERE namespace = $1 AND version = $2\<close> on the rows.
\<close>

fun upsert :: "string \<Rightarrow> int \<Rightarrow> bool \<Rightarrow> MigrationRecord list \<Rightarrow> MigrationRecord list" where
  "upsert ns v d [] = [\<lparr>row_namespace = ns, row_version = v, row_dirty = d\<rparr>]"
| "upsert ns v d (r # rs) =
     (if row_namespace r = ns \<and> row_version r = v
      then \<lparr>row_namespace = ns, row_version = v, row_dirty = d\<rparr> # rs
      else r # upsert ns v d rs)"

definition delete_rows :: "string \<Rightarrow> int \<Rightarrow> MigrationRecord list \<Rightarrow> MigrationRecord list" where
  "delete_rows ns v rs = filter (\<lambda>r. \<not> (row_namespace r = ns \<and> row_version r = v)) rs"

text \<open>
  \<^verbatim>\<open>SELECT version, dirty ... WHERE namespace = $1 ORDER BY version DESC LIMIT 1\<close>:
  the row of the namespace with the greatest version, if it has a row.
\<close>

fun max_row :: "MigrationRecord list \<Rightarrow> MigrationRecord option" where
  "max_row [] = None"
| "max_row (r # rs) =
     (case max_row rs of
        None \<Rightarrow> Some r
      | Some m \<Rightarrow> if row_version r < row_version m then Some m else Some r)"

definition current_row :: "string \<Rightarrow> MigrationRecord list \<Rightarrow> MigrationRecord option" where
  "current_row ns rs = max_row (filter (\<lambda>r. row_namespace r = ns) rs)"

text \<open>\<^verbatim>\<open>m.db.BeginTxx\<close>, \<^verbatim>\<open>tx.ExecContext\<close>, \<^verbatim>\<open>tx.Commit\<close>, \<^verbatim>\<open>tx.Rollback\<close>.\<close>

definition BeginTxx :: "world \<Rightarrow> (error + nat) \<times> world" where
  "BeginTxx w =
     (if fails w DbBegin then (Inl (CallError DbBegin), log_call DbBegin Failed w)
      else (Inr (next_tx w),
            log_call DbBegin Succeeded
              (w\<lparr>open_txs := (next_tx w, []) # open_txs w, next_tx := Suc (next_tx w)\<rparr>)))"

definition tx_scripts :: "nat \<Rightarrow> world \<Rightarrow> string list" where
  "tx_scripts tx w = (case map_of (open_txs w) tx of None \<Rightarrow> [] | Some ss \<Rightarrow> ss)"

definition close_tx :: "nat \<Rightarrow> world \<Rightarrow> world" where
  "close_tx tx w = w\<lparr>open_txs := filter (\<lambda>p. fst p \<noteq> tx) (open_txs w)\<rparr>"

definition tx_ExecContext :: "nat \<Rightarrow> string \<Rightarrow> world \<Rightarrow> error option \<times> world" where
  "tx_ExecContext tx sql w =
     (if fails w (TxExec tx sql)
      then (Some (CallError (TxExec tx sql)), log_call (TxExec tx sql) Failed w)
      else (None,
            log_call (TxExec tx sql) Succeeded
              (w\<lparr>open_txs := AList.update tx (tx_scripts tx w @ [sql]) (open_txs w)\<rparr>)))"

definition tx_Commit :: "nat \<Rightarrow> world \<Rightarrow> error option \<times> world" where
  "tx_Commit tx w =
     (if fails w (TxCommit tx)
      then (Some (CallError (TxCommit tx)), log_call (TxCommit tx) Failed (close_tx tx w))
      else (None,
            log_call (TxCommit tx) Succeeded
              (close_tx tx (w\<lparr>committed := committed w @ tx_scripts tx w\<rparr>))))"

text \<open>The source discards the result of \<^verbatim>\<open>tx.Rollback()\<close>; so does the model.\<close>

definition tx_Rollback :: "nat \<Rightarrow> world \<Rightarrow> world" where
  "tx_Rollback tx w =
     log_call (TxRollback tx) (if fails w (TxRollback tx) then Failed else Succeeded) (close_tx tx w)"

text \<open>
  \<^verbatim>\<open>os.Stat\<close>, \<^verbatim>\<open>os.ReadDir\<close> and \<^verbatim>\<open>os.ReadFile\<close> on the paths
  \<^verbatim>\<open>migrationsDir/namespace\<close> and \<^verbatim>\<open>migrationsDir/namespace/filename\<close>.
\<close>

definition os_Stat :: "string \<Rightarrow> world \<Rightarrow> outcome \<times> world" where
  "os_Stat ns w =
     (if fails w (OsStat ns) then (Failed, log_call (OsStat ns) Failed w)
      else case map_of (fs w) ns of
             None \<Rightarrow> (NotFound, log_call (OsStat ns) NotFound w)
           | Some _ \<Rightarrow> (Succeeded, log_call (OsStat ns) Succeeded w))"

definition os_ReadDir :: "string \<Rightarrow> world \<Rightarrow> (error + (string \<times> entry) list) \<times> world" where
  "os_ReadDir ns w =
     (if fails w (OsReadDir ns) then (Inl (CallError (OsReadDir ns)), log_call (OsReadDir ns) Failed w)
      else case map_of (fs w) ns of
             Some (Directory ents) \<Rightarrow> (Inr ents, log_call (OsReadDir ns) Succeeded w)
           | Some PlainFile \<Rightarrow> (Inl (CallError (OsReadDir ns)), log_call (OsReadDir ns) Failed w)
           | None \<Rightarrow> (Inl (CallError (OsReadDir ns)), log_call (OsReadDir ns) NotFound w))"

definition os_ReadDirRoot :: "world \<Rightarrow> (error + (string \<times> node) list) \<times> world" where
  "os_ReadDirRoot w =
     (if fails w OsReadDirRoot then (Inl (CallError OsReadDirRoot), log_call OsReadDirRoot Failed w)
      else (Inr (fs w), log_call OsReadDirRoot Succeeded w))"

definition file_content :: "world \<Rightarrow> string \<Rightarrow> string \<Rightarrow> string option" where
  "file_content w ns filename =
     (case map_of (fs w) ns of
        Some (Directory ents) \<Rightarrow>
          (case map_of ents filename of Some (RegFile c) \<Rightarrow> Some c | _ \<Rightarrow> None)
      | _ \<Rightarrow> None)"

definition os_ReadFile :: "string \<Rightarrow> string \<Rightarrow> world \<Rightarrow> (error + string) \<times> world" where
  "os_ReadFile ns filename w =
     (if fails w (OsReadFile ns filename)
      then (Inl (CallError (OsReadFile ns filename)), log_call (OsReadFile ns filename) Failed w)
      else case file_content w ns filename of
             None \<Rightarrow> (Inl (CallError (OsReadFile ns filename)), log_call (OsReadFile ns filename) Failed w)
           | Some c \<Rightarrow> (Inr c, log_call (OsReadFile ns filename) Succeeded w))"

subsection \<open>Go's strings and strconv, as far as the loader uses them\<close>

text \<open>\<^verbatim>\<open>strings.Split(s, "_")\<close>: never empty, one more part than separators.\<close>

fun Split :: "string \<Rightarrow> char \<Rightarrow> string list" where
  "Split [] sep = [[]]"
| "Split (c # cs) sep =
     (if c = sep then [] # Split cs sep
      else case Split cs sep of
             [] \<Rightarrow> [[c]]
           | p # ps \<Rightarrow> (c # p) # ps)"

fun Join :: "string list \<Rightarrow> string \<Rightarrow> string" where
  "Join [] sep = []"
| "Join [p] sep = p"
| "Join (p # q # ps) sep = p @ sep @ Join (q # ps) sep"

definition HasSuffix :: "string \<Rightarrow> string \<Rightarrow> bool" where
  "HasSuffix s suf = (length suf \<le> length s \<and> drop (length s - length suf) s = suf)"

definition TrimSuffix :: "string \<Rightarrow> string \<Rightarrow> string" where
  "TrimSuffix s suf = (if HasSuffix s suf then take (length s - length suf) s else s)"

text \<open>
  \<^verbatim>\<open>strconv.Atoi\<close> with a 64-bit \<^verbatim>\<open>int\<close>: an optional sign, then at least one decimal
  digit and nothing else, the value within the range of \<^verbatim>\<open>int\<close>.
\<close>

definition digit :: "char \<Rightarrow> nat option" where
  "digit c = (let n = (of_char c :: nat) in if 48 \<le> n \<and> n \<le> 57 then Some (n - 48) else None)"

fun digits :: "string \<Rightarrow> nat \<Rightarrow> nat option" where
  "digits [] acc = Some acc"
| "digits (c # cs) acc = (case digit c of None \<Rightarrow> None | Some d \<Rightarrow> digits cs (acc * 10 + d))"

definition Atoi :: "string \<Rightarrow> int option" where
  "Atoi s =
     (case s of
        [] \<Rightarrow> None
      | c # cs \<Rightarrow>
          (let neg = (c = CHR ''-'');
               ds = (if c = CHR ''-'' \<or> c = CHR ''+'' then cs else s)
           in if ds = [] then None
              else case digits ds 0 of
                     None \<Rightarrow> None
                   | Some n \<Rightarrow>
                       (let v = (if neg then - int n else int n)
                        in if - (2 ^ 63) \<le> v \<and> v < 2 ^ 63 then Some v else None)))"

subsection \<open>Version store\<close>

definition ensureMigrationsTable :: "world \<Rightarrow> error option \<times> world" where
  "ensureMigrationsTable w =
     (if fails w DbEnsureTable then (Some (CallError DbEnsureTable), log_call DbEnsureTable Failed w)
      else (None,
            log_call DbEnsureTable Succeeded
              (w\<lparr>table := Some (case table w of None \<Rightarrow> [] | Some rs \<Rightarrow> rs)\<rparr>)))"

definition getCurrentVersion :: "string \<Rightarrow> world \<Rightarrow> (error + int \<times> bool) \<times> world" where
  "getCurrentVersion namespace w =
     (let c = DbQueryCurrent namespace
      in if fails w c then (Inl (CallError c), log_call c Failed w)
         else case table w of
                None \<Rightarrow> (Inl (CallError c), log_call c Failed w)
              | Some rs \<Rightarrow>
                  (case current_row namespace rs of
                     None \<Rightarrow> (Inr (0, False), log_call c NotFound w)
                   | Some r \<Rightarrow> (Inr (row_version r, row_dirty r), log_call c Succeeded w)))"

definition setVersion :: "string \<Rightarrow> int \<Rightarrow> bool \<Rightarrow> world \<Rightarrow> error option \<times> world" where
  "setVersion namespace version dirty w =
     (let c = DbUpsert namespace version dirty
      in if fails w c then (Some (CallError c), log_call c Failed w)
         else case table w of
                None \<Rightarrow> (Some (CallError c), log_call c Failed w)
              | Some rs \<Rightarrow>
                  (None, log_call c Succeeded (w\<lparr>table := Some (upsert namespace version dirty rs)\<rparr>)))"

definition deleteVersion :: "string \<Rightarrow> int \<Rightarrow> world \<Rightarrow> error option \<times> world" where
  "deleteVersion namespace version w =
     (let c = DbDelete namespace version
      in if fails w c then (Some (CallError c), log_call c Failed w)
         else case table w of
                None \<Rightarrow> (Some (CallError c), log_call c Failed w)
              | Some rs \<Rightarrow>
                  (None, log_call c Succeeded (w\<lparr>table := Some (delete_rows namespace version rs)\<rparr>)))"

subsection \<open>Migration file loader\<close>

definition newMigrationFile :: "int \<Rightarrow> string \<Rightarrow> MigrationFile" where
  "newMigrationFile version namespace =
     \<lparr>Version = version, Description = [], Namespace = namespace, UpSQL = [], DownSQL = []\<rparr>"

definition getOrNew :: "(int \<times> MigrationFile) list \<Rightarrow> int \<Rightarrow> string \<Rightarrow> MigrationFile" where
  "getOrNew migrations version namespace =
     (case map_of migrations version of
        None \<Rightarrow> newMigrationFile version namespace
      | Some mig \<Rightarrow> mig)"

text \<open>
  The body of \<^verbatim>\<open>for _, file := range files\<close>, from one value of the Go map
  \<^verbatim>\<open>migrations\<close> to the next; the map is an association list keyed by version, and
  \<^verbatim>\<open>continue\<close> returns it as it is.
\<close>

definition loadFile ::
  "string \<Rightarrow> string \<times> entry \<Rightarrow> (int \<times> MigrationFile) list \<Rightarrow> world \<Rightarrow>
     (error + (int \<times> MigrationFile) list) \<times> world" where
  "loadFile namespace file migrations w =
     (let filename = fst file
      in if snd file = SubDir then (Inr migrations, w)
         else let parts = Split filename CHR ''_''
              in if length parts < 2 then (Inr migrations, w)
                 else case Atoi (hd parts) of
                        None \<Rightarrow> (Inr migrations, w)
                      | Some version \<Rightarrow>
                          (case os_ReadFile namespace filename w of
                             (Inl err, w1) \<Rightarrow> (Inl (Wrap (ReadFileCtx filename) err), w1)
                           | (Inr content, w1) \<Rightarrow>
                               if HasSuffix filename ''.up.sql'' then
                                 (let mig = (getOrNew migrations version namespace)
                                              \<lparr>UpSQL := content\<rparr>;
                                      descParts = Split filename CHR ''_'';
                                      mig' = (if length descParts > 1
                                              then mig\<lparr>Description :=
                                                     TrimSuffix (Join (tl descParts) ''_'')
                                                       ''.up.sql''\<rparr>
                                              else mig)
                                  in (Inr (AList.update version mig' migrations), w1))
                               else if HasSuffix filename ''.down.sql'' then
                                 (let mig = (getOrNew migrations version namespace)
                                              \<lparr>DownSQL := content\<rparr>
                                  in (Inr (AList.update version mig migrations), w1))
                               else (Inr migrations, w1)))"

fun loadLoop ::
  "string \<Rightarrow> (string \<times> entry) list \<Rightarrow> (int \<times> MigrationFile) list \<Rightarrow> world \<Rightarrow>
     (error + (int \<times> MigrationFile) list) \<times> world" where
  "loadLoop namespace [] migrations w = (Inr migrations, w)"
| "loadLoop namespace (file # files) migrations w =
     (case loadFile namespace file migrations w of
        (Inl err, w1) \<Rightarrow> (Inl err, w1)
      | (Inr migrations', w1) \<Rightarrow> loadLoop namespace files migrations' w1)"

definition loadMigrationFiles :: "string \<Rightarrow> world \<Rightarrow> (error + MigrationFile list) \<times> world" where
  "loadMigrationFiles namespace w =
     (case os_Stat namespace w of
        (NotFound, w1) \<Rightarrow>
          (Inr [], w1\<lparr>warnings := warnings w1 @ [''Migration directory not found'']\<rparr>)
      | (_, w1) \<Rightarrow>
          (case os_ReadDir namespace w1 of
             (Inl err, w2) \<Rightarrow> (Inl (Wrap ReadDirCtx err), w2)
           | (Inr files, w2) \<Rightarrow>
               (case loadLoop namespace files [] w2 of
                  (Inl err, w3) \<Rightarrow> (Inl err, w3)
                | (Inr migrations, w3) \<Rightarrow> (Inr (sort_key Version (map snd migrations)), w3))))"

subsection \<open>Migration engine\<close>

text \<open>
  The deferred function of \<^verbatim>\<open>applyMigration\<close> rolls the transaction back when the
  local variable \<^verbatim>\<open>err\<close> is set: after a failed \<^verbatim>\<open>setVersion\<close> or \<^verbatim>\<open>ExecContext\<close>, not
  after a failed \<^verbatim>\<open>BeginTxx\<close> (the defer is not yet registered) and not after a failed
  \<^verbatim>\<open>Commit\<close> (its result is returned without being assigned to \<^verbatim>\<open>err\<close>).
\<close>

definition applyMigration :: "MigrationFile \<Rightarrow> world \<Rightarrow> error option \<times> world" where
  "applyMigration mig w =
     (case BeginTxx w of
        (Inl err, w1) \<Rightarrow> (Some (Wrap BeginCtx err), w1)
      | (Inr tx, w1) \<Rightarrow>
          (case setVersion (Namespace mig) (Version mig) True w1 of
             (Some err, w2) \<Rightarrow> (Some (Wrap MarkDirtyCtx err), tx_Rollback tx w2)
           | (None, w2) \<Rightarrow>
               (case tx_ExecContext tx (UpSQL mig) w2 of
                  (Some err, w3) \<Rightarrow> (Some (Wrap ExecSQLCtx err), tx_Rollback tx w3)
                | (None, w3) \<Rightarrow>
                    (case setVersion (Namespace mig) (Version mig) False w3 of
                       (Some err, w4) \<Rightarrow> (Some (Wrap MarkCleanCtx err), tx_Rollback tx w4)
                     | (None, w4) \<Rightarrow> tx_Commit tx w4))))"

text \<open>The loop \<^verbatim>\<open>for _, mig := range pending\<close> of \<^verbatim>\<open>MigrateNamespace\<close>.\<close>

fun applyPending :: "MigrationFile list \<Rightarrow> world \<Rightarrow> error option \<times> world" where
  "applyPending [] w = (None, w)"
| "applyPending (mig # migs) w =
     (case applyMigration mig w of
        (Some err, w1) \<Rightarrow> (Some (Wrap (ApplyCtx (Version mig)) err), w1)
      | (None, w1) \<Rightarrow> applyPending migs w1)"

definition MigrateNamespace :: "string \<Rightarrow> world \<Rightarrow> error option \<times> world" where
  "MigrateNamespace namespace w =
     (case ensureMigrationsTable w of
        (Some err, w1) \<Rightarrow> (Some (Wrap CreateTableCtx err), w1)
      | (None, w1) \<Rightarrow>
          (case getCurrentVersion namespace w1 of
             (Inl err, w2) \<Rightarrow> (Some (Wrap GetVersionCtx err), w2)
           | (Inr (currentVersion, dirty), w2) \<Rightarrow>
               if dirty then (Some (DirtyState namespace currentVersion True), w2)
               else (case loadMigrationFiles namespace w2 of
                       (Inl err, w3) \<Rightarrow> (Some (Wrap LoadFilesCtx err), w3)
                     | (Inr migrations, w3) \<Rightarrow>
                         if length migrations = 0 then (None, w3)
                         else let pending = filter (\<lambda>mig. Version mig > currentVersion) migrations
                              in if length pending = 0 then (None, w3)
                                 else applyPending pending w3)))"

text \<open>
  In \<^verbatim>\<open>rollbackMigration\<close> the return for an empty down-script does not assign
  \<^verbatim>\<open>err\<close>, so the deferred function does nothing there.
\<close>

definition rollbackMigration :: "MigrationFile \<Rightarrow> world \<Rightarrow> error option \<times> world" where
  "rollbackMigration mig w =
     (case BeginTxx w of
        (Inl err, w1) \<Rightarrow> (Some (Wrap BeginCtx err), w1)
      | (Inr tx, w1) \<Rightarrow>
          if DownSQL mig = [] then (Some (MissingDownScript (Version mig)), w1)
          else (case tx_ExecContext tx (DownSQL mig) w1 of
                  (Some err, w2) \<Rightarrow> (Some (Wrap ExecDownCtx err), tx_Rollback tx w2)
                | (None, w2) \<Rightarrow>
                    (case deleteVersion (Namespace mig) (Version mig) w2 of
                       (Some err, w3) \<Rightarrow> (Some (Wrap DeleteVersionCtx err), tx_Rollback tx w3)
                     | (None, w3) \<Rightarrow> tx_Commit tx w3)))"

text \<open>
  \<^verbatim>\<open>for i := len(migrations) - 1; i >= 0; i--\<close>, collecting into \<^verbatim>\<open>toRollback\<close>; the
  first argument is the migrations from the last to the first.
\<close>

fun selectRollback :: "MigrationFile list \<Rightarrow> int \<Rightarrow> int \<Rightarrow> MigrationFile list \<Rightarrow> MigrationFile list" where
  "selectRollback [] currentVersion steps toRollback = toRollback"
| "selectRollback (mig # migs) currentVersion steps toRollback =
     (if Version mig \<le> currentVersion \<and> int (length toRollback) < steps
      then selectRollback migs currentVersion steps (toRollback @ [mig])
      else selectRollback migs currentVersion steps toRollback)"

fun rollbackEach :: "MigrationFile list \<Rightarrow> world \<Rightarrow> error option \<times> world" where
  "rollbackEach [] w = (None, w)"
| "rollbackEach (mig # migs) w =
     (case rollbackMigration mig w of
        (Some err, w1) \<Rightarrow> (Some (Wrap (RollbackCtx (Version mig)) err), w1)
      | (None, w1) \<Rightarrow> rollbackEach migs w1)"

definition Rollback :: "string \<Rightarrow> int \<Rightarrow> world \<Rightarrow> error option \<times> world" where
  "Rollback namespace steps w =
     (case getCurrentVersion namespace w of
        (Inl err, w1) \<Rightarrow> (Some (Wrap GetVersionCtx err), w1)
      | (Inr (currentVersion, dirty), w1) \<Rightarrow>
          if dirty then (Some (DirtyState namespace currentVersion False), w1)
          else if currentVersion = 0 then (None, w1)
          else (case loadMigrationFiles namespace w1 of
                  (Inl err, w2) \<Rightarrow> (Some (Wrap LoadFilesCtx err), w2)
                | (Inr migrations, w2) \<Rightarrow>
                    (let toRollback = selectRollback (rev migrations) currentVersion steps []
                     in if length toRollback = 0 then (None, w2)
                        else rollbackEach toRollback w2)))"

definition Version_of :: "string \<Rightarrow> world \<Rightarrow> (error + int) \<times> world" where
  "Version_of namespace w =
     (case getCurrentVersion namespace w of
        (Inl err, w1) \<Rightarrow> (Inl err, w1)
      | (Inr (version, _), w1) \<Rightarrow> (Inr version, w1))"

subsection \<open>Cross-namespace coordinator\<close>

fun migrateModules :: "string list \<Rightarrow> world \<Rightarrow> error option \<times> world" where
  "migrateModules [] w = (None, w)"
| "migrateModules (module # modules) w =
     (case MigrateNamespace module w of
        (Some err, w1) \<Rightarrow> (Some (Wrap (MigrateModuleCtx module) err), w1)
      | (None, w1) \<Rightarrow> migrateModules modules w1)"

definition MigrateAll :: "string list \<Rightarrow> world \<Rightarrow> error option \<times> world" where
  "MigrateAll enabledModules w =
     (case MigrateNamespace ''core'' w of
        (Some err, w1) \<Rightarrow> (Some (Wrap MigrateCoreCtx err), w1)
      | (None, w1) \<Rightarrow> migrateModules enabledModules w1)"

text \<open>
  \<^verbatim>\<open>SELECT DISTINCT namespace FROM schema_migrations ORDER BY namespace\<close> (bytewise
  order), then \<^verbatim>\<open>for rows.Next() { rows.Scan(&namespace) ... }\<close>.  The loop ends when
  \<^verbatim>\<open>rows.Next()\<close> returns false, at the last row or on an error; the source never asks
  \<^verbatim>\<open>rows.Err()\<close> which of the two it was.  \<^verbatim>\<open>defer rows.Close()\<close> runs when
  \<^verbatim>\<open>Status\<close> returns, and its result is dropped.
\<close>

definition db_QueryNamespaces :: "world \<Rightarrow> (error + string list) \<times> world" where
  "db_QueryNamespaces w =
     (if fails w DbQueryNamespaces
      then (Inl (CallError DbQueryNamespaces), log_call DbQueryNamespaces Failed w)
      else case table w of
             None \<Rightarrow> (Inl (CallError DbQueryNamespaces), log_call DbQueryNamespaces Failed w)
           | Some rs \<Rightarrow>
               (Inr (sort (remdups (map row_namespace rs))), log_call DbQueryNamespaces Succeeded w))"

fun scanNamespaces :: "string list \<Rightarrow> string list \<Rightarrow> world \<Rightarrow> (error + string list) \<times> world" where
  "scanNamespaces [] namespaces w =
     (Inr namespaces, log_call RowsNext (if fails w RowsNext then Failed else Succeeded) w)"
| "scanNamespaces (row # rows) namespaces w =
     (if fails w RowsNext then (Inr namespaces, log_call RowsNext Failed w)
      else let w1 = log_call RowsNext Succeeded w
           in if fails w1 RowsScan then (Inl (CallError RowsScan), log_call RowsScan Failed w1)
              else scanNamespaces rows (namespaces @ [row]) (log_call RowsScan Succeeded w1))"

definition rows_Close :: "'a \<times> world \<Rightarrow> 'a \<times> world" where
  "rows_Close p =
     (fst p, log_call RowsClose (if fails (snd p) RowsClose then Failed else Succeeded) (snd p))"

definition IsDir :: "node \<Rightarrow> bool" where
  "IsDir nd = (case nd of Directory _ \<Rightarrow> True | PlainFile \<Rightarrow> False)"

text \<open>"Also check filesystem for namespaces": the directories not yet in the list.\<close>

fun addDirNamespaces :: "(string \<times> node) list \<Rightarrow> string list \<Rightarrow> string list" where
  "addDirNamespaces [] namespaces = namespaces"
| "addDirNamespaces ((name, nd) # files) namespaces =
     (if IsDir nd \<and> name \<notin> set namespaces
      then addDirNamespaces files (namespaces @ [name])
      else addDirNamespaces files namespaces)"

fun statusEach ::
  "string list \<Rightarrow> (string \<rightharpoonup> MigrationStatus) \<Rightarrow> world \<Rightarrow>
     (error + (string \<rightharpoonup> MigrationStatus)) \<times> world" where
  "statusEach [] result w = (Inr result, w)"
| "statusEach (namespace # namespaces) result w =
     (case getCurrentVersion namespace w of
        (Inl err, w1) \<Rightarrow> (Inl err, w1)
      | (Inr (currentVersion, dirty), w1) \<Rightarrow>
          (case loadMigrationFiles namespace w1 of
             (Inl err, w2) \<Rightarrow> (Inl err, w2)
           | (Inr migrations, w2) \<Rightarrow>
               statusEach namespaces
                 (result(namespace \<mapsto>
                    \<lparr>StatusNamespace = namespace, CurrentVersion = currentVersion,
                     PendingCount =
                       int (length (filter (\<lambda>mig. Version mig > currentVersion) migrations)),
                     Dirty = dirty\<rparr>))
                 w2))"

definition Status :: "world \<Rightarrow> (error + (string \<rightharpoonup> MigrationStatus)) \<times> world" where
  "Status w =
     (case ensureMigrationsTable w of
        (Some err, w1) \<Rightarrow> (Inl (Wrap CreateTableCtx err), w1)
      | (None, w1) \<Rightarrow>
          (case db_QueryNamespaces w1 of
             (Inl err, w2) \<Rightarrow> (Inl err, w2)
           | (Inr rows, w2) \<Rightarrow>
               rows_Close
                 (case scanNamespaces rows [] w2 of
                    (Inl err, w3) \<Rightarrow> (Inl err, w3)
                  | (Inr namespaces, w3) \<Rightarrow>
                      (case os_ReadDirRoot w3 of
                         (Inl err, w4) \<Rightarrow> statusEach namespaces Map.empty w4
                       | (Inr files, w4) \<Rightarrow>
                           statusEach (addDirNamespaces files namespaces) Map.empty w4))))"

subsection \<open>Observations on a run\<close>

text \<open>The collaborator calls made between two worlds of one run, with their outcomes.\<close>

definition calls_since :: "world \<Rightarrow> world \<Rightarrow> (call \<times> outcome) list" where
  "calls_since w w' = drop (length (trace w)) (trace w')"

definition rows_of :: "world \<Rightarrow> MigrationRecord list" where
  "rows_of w = (case table w of None \<Rightarrow> [] | Some rs \<Rightarrow> rs)"

text \<open>The persisted dirty flag of the record with key (namespace, version), if there is one.\<close>

definition dirty_of :: "string \<Rightarrow> int \<Rightarrow> MigrationRecord list \<Rightarrow> bool option" where
  "dirty_of ns v rs =
     map_option row_dirty (find (\<lambda>r. row_namespace r = ns \<and> row_version r = v) rs)"

subsection \<open>Example worlds\<close>

text \<open>
  A namespace "core" blocked at version 2: version 1 applied, version 2 marked dirty.
\<close>

definition dirty_world :: world where
  "dirty_world =
     \<lparr>faults = (\<lambda>n c. False), trace = [],
      table = Some [\<lparr>row_namespace = ''core'', row_version = 1, row_dirty = False\<rparr>,
                    \<lparr>row_namespace = ''core'', row_version = 2, row_dirty = True\<rparr>],
      committed = [''CREATE A''], open_txs = [], next_tx = 1,
      fs = [(''core'', Directory [(''1_a.up.sql'', RegFile ''CREATE A''),
                                  (''2_b.up.sql'', RegFile ''CREATE B'')])],
      warnings = []\<rparr>"

text \<open>The migration of a version 2 that has an up-file only.\<close>

definition no_down_mig :: MigrationFile where
  "no_down_mig =
     \<lparr>Version = 2, Description = ''b'', Namespace = ''core'', UpSQL = ''CREATE B'', DownSQL = []\<rparr>"

text \<open>
  A fresh database with an existing, empty table, where every commit fails; and the first
  migration of "core".
\<close>

definition commit_fails_world :: world where
  "commit_fails_world =
     \<lparr>faults = (\<lambda>n c. c = TxCommit 0), trace = [], table = Some [],
      committed = [], open_txs = [], next_tx = 0,
      fs = [(''core'', Directory [(''1_a.up.sql'', RegFile ''CREATE A'')])],
      warnings = []\<rparr>"

definition first_mig :: MigrationFile where
  "first_mig =
     \<lparr>Version = 1, Description = ''a'', Namespace = ''core'', UpSQL = ''CREATE A'', DownSQL = []\<rparr>"

text \<open>The same database where the script of the first migration fails.\<close>

definition script_fails_world :: world where
  "script_fails_world =
     \<lparr>faults = (\<lambda>n c. c = TxExec 0 ''CREATE A''), trace = [], table = Some [],
      committed = [], open_txs = [], next_tx = 0,
      fs = [(''core'', Directory [(''1_a.up.sql'', RegFile ''CREATE A'')])],
      warnings = []\<rparr>"

text \<open>The calls on the filesystem, and a filesystem that never reports a failure.\<close>

definition is_os_call :: "call \<Rightarrow> bool" where
  "is_os_call c =
     (case c of
        OsStat _ \<Rightarrow> True
      | OsReadDir _ \<Rightarrow> True
      | OsReadDirRoot \<Rightarrow> True
      | OsReadFile _ _ \<Rightarrow> True
      | _ \<Rightarrow> False)"

definition os_reliable :: "world \<Rightarrow> bool" where
  "os_reliable w = (\<forall>n c. is_os_call c \<longrightarrow> \<not> faults w n c)"

text \<open>
  \<open>os_frame w w'\<close>: from \<open>w\<close> to \<open>w'\<close> nothing happened but calls on the filesystem (and
  warnings).
\<close>

definition os_frame :: "world \<Rightarrow> world \<Rightarrow> bool" where
  "os_frame w w' =
     (faults w' = faults w \<and> table w' = table w \<and> committed w' = committed w
      \<and> open_txs w' = open_txs w \<and> next_tx w' = next_tx w \<and> fs w' = fs w
      \<and> (\<exists>ys. trace w' = trace w @ ys \<and> (\<forall>p \<in> set ys. is_os_call (fst p))))"

text \<open>
  The version a directory entry contributes to the loaded migrations, by the tests of the
  loop body: a file, an underscore in the name, a prefix that \<open>Atoi\<close> parses, and one of
  the two suffixes.
\<close>

definition entry_version :: "string \<times> entry \<Rightarrow> int option" where
  "entry_version file =
     (if snd file = SubDir \<or> length (Split (fst file) CHR ''_'') < 2
         \<or> \<not> (HasSuffix (fst file) ''.up.sql'' \<or> HasSuffix (fst file) ''.down.sql'')
      then None
      else Atoi (hd (Split (fst file) CHR ''_'')))"

text \<open>
  A directory for "core" with a well-formed pair for version 1, an up-file with a negative
  prefix, a file whose prefix is not a number, a file without underscore, and a
  subdirectory.
\<close>

definition signed_dir :: "(string \<times> entry) list" where
  "signed_dir =
     [(''-5_neg.up.sql'', RegFile ''DROP X''),
      (''000001_init.down.sql'', RegFile ''DROP A''),
      (''000001_init.up.sql'', RegFile ''CREATE A''),
      (''README.md'', RegFile ''notes''),
      (''old_1.up.sql'', SubDir),
      (''x_y.up.sql'', RegFile ''CREATE Y'')]"

definition signed_world :: world where
  "signed_world =
     \<lparr>faults = (\<lambda>n c. False), trace = [], table = None, committed = [], open_txs = [],
      next_tx = 0, fs = [(''core'', Directory signed_dir)], warnings = []\<rparr>"

definition signed_loaded :: "MigrationFile list" where
  "signed_loaded =
     [\<lparr>Version = - 5, Description = ''neg'', Namespace = ''core'', UpSQL = ''DROP X'',
       DownSQL = []\<rparr>,
      \<lparr>Version = 1, Description = ''init'', Namespace = ''core'', UpSQL = ''CREATE A'',
       DownSQL = ''DROP A''\<rparr>]"

text \<open>A directory for "core" that holds one up-file, with the prefix -5.\<close>

definition negative_prefix_world :: world where
  "negative_prefix_world =
     \<lparr>faults = (\<lambda>n c. False), trace = [], table = None, committed = [], open_txs = [],
      next_tx = 0, fs = [(''core'', Directory [(''-5_neg.up.sql'', RegFile ''DROP X'')])],
      warnings = []\<rparr>"

text \<open>
  \<open>run_frame w w'\<close>: \<open>w'\<close> is a later world of the run that passed through \<open>w\<close>; the
  fault schedule and the files are the same and the trace has grown.
\<close>

definition run_frame :: "world \<Rightarrow> world \<Rightarrow> bool" where
  "run_frame w w' =
     (faults w' = faults w \<and> fs w' = fs w \<and> (\<exists>ys. trace w' = trace w @ ys))"

text \<open>
  A table where an older version of "core" is still marked dirty below a clean, greater
  one.
\<close>

definition stale_dirty_world :: world where
  "stale_dirty_world =
     \<lparr>faults = (\<lambda>n c. False), trace = [],
      table = Some [\<lparr>row_namespace = ''core'', row_version = 1, row_dirty = True\<rparr>,
                    \<lparr>row_namespace = ''core'', row_version = 2, row_dirty = False\<rparr>],
      committed = [''CREATE B''], open_txs = [], next_tx = 1,
      fs = [(''core'', Directory [(''1_a.up.sql'', RegFile ''CREATE A''),
                                  (''2_b.up.sql'', RegFile ''CREATE B'')])],
      warnings = []\<rparr>"

text \<open>
  The namespaces of a list migrated one after the other for as long as each succeeds: the
  world reached after the last one, or \<open>None\<close> when one of them returned an error.
\<close>

fun migrate_each :: "string list \<Rightarrow> world \<Rightarrow> world option" where
  "migrate_each [] w = Some w"
| "migrate_each (ns # nss) w =
     (case MigrateNamespace ns w of
        (None, w1) \<Rightarrow> migrate_each nss w1
      | (Some err, w1) \<Rightarrow> None)"

text \<open>
  A database without migration directories, where the version query for the namespace
  "b" fails.
\<close>

definition b_fails_world :: world where
  "b_fails_world =
     \<lparr>faults = (\<lambda>n c. c = DbQueryCurrent ''b''), trace = [], table = None, committed = [],
      open_txs = [], next_tx = 0, fs = [], warnings = []\<rparr>"

definition b_fails_world_after_a :: world where
  "b_fails_world_after_a =
     snd (MigrateNamespace ''a'' (snd (MigrateNamespace ''core'' b_fails_world)))"

text \<open>
  A world where no call but the execution of a script ever reports a failure, and one
  where no call does.
\<close>

definition only_scripts_fail :: "world \<Rightarrow> bool" where
  "only_scripts_fail w = (\<forall>n c. faults w n c \<longrightarrow> (\<exists>tx sql. c = TxExec tx sql))"

definition no_faults :: "world \<Rightarrow> bool" where
  "no_faults w = (\<forall>n c. \<not> faults w n c)"

text \<open>The calls of an apply or rollback unit: the transaction and the writes to the table.\<close>

definition is_unit_call :: "call \<Rightarrow> bool" where
  "is_unit_call c =
     (case c of
        DbBegin \<Rightarrow> True
      | TxExec _ _ \<Rightarrow> True
      | TxCommit _ \<Rightarrow> True
      | TxRollback _ \<Rightarrow> True
      | DbUpsert _ _ _ \<Rightarrow> True
      | DbDelete _ _ \<Rightarrow> True
      | _ \<Rightarrow> False)"

text \<open>What \<open>getCurrentVersion\<close> returns for a namespace when its query succeeds.\<close>

definition current_version :: "string \<Rightarrow> MigrationRecord list \<Rightarrow> int \<times> bool" where
  "current_version ns rs =
     (case current_row ns rs of
        None \<Rightarrow> (0, False)
      | Some r \<Rightarrow> (row_version r, row_dirty r))"

text \<open>
  \<open>MigrateNamespace\<close> up to the loop over the pending migrations, and \<open>Rollback\<close> up to
  the loop over the selected ones: the table exists with the rows of before, and no unit
  has been started.
\<close>

definition preamble :: "world \<Rightarrow> world \<Rightarrow> bool" where
  "preamble w w' =
     (run_frame w w' \<and> table w' = Some (rows_of w) \<and> committed w' = committed w
      \<and> open_txs w' = open_txs w \<and> next_tx w' = next_tx w
      \<and> (\<forall>p \<in> set (calls_since w w'). \<not> is_unit_call (fst p)))"

text \<open>
  A fresh database and a directory for "core" with three versions, where the script of
  version 2 fails whenever it is executed.
\<close>

definition v2_fails_world :: world where
  "v2_fails_world =
     \<lparr>faults = (\<lambda>n c. case c of TxExec tx sql \<Rightarrow> sql = ''CREATE B'' | _ \<Rightarrow> False),
      trace = [], table = None, committed = [], open_txs = [], next_tx = 0,
      fs = [(''core'', Directory [(''1_a.up.sql'', RegFile ''CREATE A''),
                                  (''2_b.up.sql'', RegFile ''CREATE B''),
                                  (''3_c.up.sql'', RegFile ''CREATE C'')])],
      warnings = []\<rparr>"

definition mig_a :: MigrationFile where
  "mig_a = \<lparr>Version = 1, Description = ''a'', Namespace = ''core'', UpSQL = ''CREATE A'',
            DownSQL = []\<rparr>"

definition mig_b :: MigrationFile where
  "mig_b = \<lparr>Version = 2, Description = ''b'', Namespace = ''core'', UpSQL = ''CREATE B'',
            DownSQL = []\<rparr>"

definition mig_c :: MigrationFile where
  "mig_c = \<lparr>Version = 3, Description = ''c'', Namespace = ''core'', UpSQL = ''CREATE C'',
            DownSQL = []\<rparr>"

text \<open>
  A fresh database and a directory for "core" where version 2 has a down-file only.
\<close>

definition down_only_dir :: "(string \<times> entry) list" where
  "down_only_dir =
     [(''1_a.down.sql'', RegFile ''DROP A''), (''1_a.up.sql'', RegFile ''CREATE A''),
      (''2_b.down.sql'', RegFile ''DROP B'')]"

definition down_only_world :: world where
  "down_only_world =
     \<lparr>faults = (\<lambda>n c. False), trace = [], table = None, committed = [], open_txs = [],
      next_tx = 0, fs = [(''core'', Directory down_only_dir)], warnings = []\<rparr>"

definition down_only_loaded :: "MigrationFile list" where
  "down_only_loaded =
     [\<lparr>Version = 1, Description = ''a'', Namespace = ''core'', UpSQL = ''CREATE A'',
       DownSQL = ''DROP A''\<rparr>,
      \<lparr>Version = 2, Description = [], Namespace = ''core'', UpSQL = [],
       DownSQL = ''DROP B''\<rparr>]"

text \<open>
  A fresh database and a directory for "core" with the versions 1, 2 and 3, each with an
  up-file and a down-file.
\<close>

definition three_world :: world where
  "three_world =
     \<lparr>faults = (\<lambda>n c. False), trace = [], table = None, committed = [], open_txs = [],
      next_tx = 0,
      fs = [(''core'', Directory [(''1_a.down.sql'', RegFile ''DROP A''),
                                  (''1_a.up.sql'', RegFile ''CREATE A''),
                                  (''2_b.down.sql'', RegFile ''DROP B''),
                                  (''2_b.up.sql'', RegFile ''CREATE B''),
                                  (''3_c.down.sql'', RegFile ''DROP C''),
                                  (''3_c.up.sql'', RegFile ''CREATE C'')])],
      warnings = []\<rparr>"

definition three_a :: MigrationFile where
  "three_a = \<lparr>Version = 1, Description = ''a'', Namespace = ''core'', UpSQL = ''CREATE A'',
              DownSQL = ''DROP A''\<rparr>"

definition three_b :: MigrationFile where
  "three_b = \<lparr>Version = 2, Description = ''b'', Namespace = ''core'', UpSQL = ''CREATE B'',
              DownSQL = ''DROP B''\<rparr>"

definition three_c :: MigrationFile where
  "three_c = \<lparr>Version = 3, Description = ''c'', Namespace = ''core'', UpSQL = ''CREATE C'',
              DownSQL = ''DROP C''\<rparr>"

section \<open>Properties\<close>

subsection \<open>The dirty guard\<close>

text \<open>
  Claim C1.  When the current record of a namespace (its row of greatest version) is dirty,
  \<open>MigrateNamespace\<close> and \<open>Rollback\<close> both return an error, which is the dirty-state
  error as soon as the store calls before the guard succeed; the only collaborator calls
  they make are the table creation and the version query, so no migration file is read
  and no script executed, and the rows of the table and the committed scripts are those
  of before.
\<close>

theorem dirty_guard:
  assumes "table w = Some rows" and "current_row N rows = Some r" and "row_dirty r"
  shows "(\<exists>e. fst (MigrateNamespace N w) = Some e)
       \<and> (\<not> fails w DbEnsureTable \<and> \<not> faults w (Suc (length (trace w))) (DbQueryCurrent N)
            \<longrightarrow> fst (MigrateNamespace N w) = Some (DirtyState N (row_version r) True))
       \<and> set (map fst (calls_since w (snd (MigrateNamespace N w))))
            \<subseteq> {DbEnsureTable, DbQueryCurrent N}
       \<and> table (snd (MigrateNamespace N w)) = table w
       \<and> committed (snd (MigrateNamespace N w)) = committed w
       \<and> (\<exists>e. fst (Rollback N steps w) = Some e)
       \<and> (\<not> fails w (DbQueryCurrent N)
            \<longrightarrow> fst (Rollback N steps w) = Some (DirtyState N (row_version r) False))
       \<and> set (map fst (calls_since w (snd (Rollback N steps w)))) \<subseteq> {DbQueryCurrent N}
       \<and> table (snd (Rollback N steps w)) = table w
       \<and> committed (snd (Rollback N steps w)) = committed w"
  using assms
  by (simp add: MigrateNamespace_def Rollback_def ensureMigrationsTable_def getCurrentVersion_def
        fails_def log_call_def calls_since_def Let_def)

theorem dirty_guard_witness:
  "table dirty_world = Some (rows_of dirty_world)
   \<and> current_row ''core'' (rows_of dirty_world)
       = Some \<lparr>row_namespace = ''core'', row_version = 2, row_dirty = True\<rparr>
   \<and> fst (MigrateNamespace ''core'' dirty_world) = Some (DirtyState ''core'' 2 True)
   \<and> fst (Rollback ''core'' 1 dirty_world) = Some (DirtyState ''core'' 2 False)
   \<and> table (snd (MigrateNamespace ''core'' dirty_world)) = table dirty_world
   \<and> table (snd (Rollback ''core'' 1 dirty_world)) = table dirty_world"
  using dirty_guard [of dirty_world "rows_of dirty_world" "''core''"
      "\<lparr>row_namespace = ''core'', row_version = 2, row_dirty = True\<rparr>" 1]
  by (simp add: dirty_world_def rows_of_def current_row_def fails_def)

subsection \<open>Rolling back a version without a down-script\<close>

text \<open>
  Claim C9.  For a migration whose down-script is empty, \<open>rollbackMigration\<close> begins a
  transaction and returns the missing-down-script error.  The begin is the only
  collaborator call it makes: neither Commit nor Rollback is called on the transaction,
  which stays in the open transactions, and the table is unchanged.
\<close>

theorem rollbackMigration_missing_down_leaks_tx:
  assumes "DownSQL mig = []" and "\<not> fails w DbBegin"
  shows "fst (rollbackMigration mig w) = Some (MissingDownScript (Version mig))
       \<and> calls_since w (snd (rollbackMigration mig w)) = [(DbBegin, Succeeded)]
       \<and> open_txs (snd (rollbackMigration mig w)) = (next_tx w, []) # open_txs w
       \<and> table (snd (rollbackMigration mig w)) = table w
       \<and> committed (snd (rollbackMigration mig w)) = committed w"
  using assms by (simp add: rollbackMigration_def BeginTxx_def log_call_def calls_since_def)

theorem rollbackMigration_missing_down_leaks_tx_witness:
  "DownSQL no_down_mig = [] \<and> \<not> fails dirty_world DbBegin
   \<and> fst (rollbackMigration no_down_mig dirty_world) = Some (MissingDownScript 2)
   \<and> calls_since dirty_world (snd (rollbackMigration no_down_mig dirty_world))
       = [(DbBegin, Succeeded)]
   \<and> open_txs (snd (rollbackMigration no_down_mig dirty_world)) = [(1, [])]"
  using rollbackMigration_missing_down_leaks_tx [of no_down_mig dirty_world]
  by (simp add: no_down_mig_def dirty_world_def fails_def)

subsection \<open>Basic facts about the collaborators\<close>

lemma log_call_simps [simp]:
  "trace (log_call c out w) = trace w @ [(c, out)]"
  "faults (log_call c out w) = faults w"
  "table (log_call c out w) = table w"
  "committed (log_call c out w) = committed w"
  "open_txs (log_call c out w) = open_txs w"
  "next_tx (log_call c out w) = next_tx w"
  "fs (log_call c out w) = fs w"
  "warnings (log_call c out w) = warnings w"
  by (simp_all add: log_call_def)

lemma close_tx_simps [simp]:
  "trace (close_tx tx w) = trace w"
  "faults (close_tx tx w) = faults w"
  "table (close_tx tx w) = table w"
  "committed (close_tx tx w) = committed w"
  "next_tx (close_tx tx w) = next_tx w"
  "fs (close_tx tx w) = fs w"
  "map_of (open_txs (close_tx tx w)) tx = None"
  by (auto simp: close_tx_def map_of_eq_None_iff)

lemma tx_Rollback_simps [simp]:
  "faults (tx_Rollback tx w) = faults w"
  "table (tx_Rollback tx w) = table w"
  "committed (tx_Rollback tx w) = committed w"
  "next_tx (tx_Rollback tx w) = next_tx w"
  "fs (tx_Rollback tx w) = fs w"
  "map_of (open_txs (tx_Rollback tx w)) tx = None"
  "trace (tx_Rollback tx w) =
     trace w @ [(TxRollback tx, if fails w (TxRollback tx) then Failed else Succeeded)]"
  by (simp_all add: tx_Rollback_def fails_def)

lemma rows_of_simps [simp]:
  "rows_of (log_call c out w) = rows_of w"
  "rows_of (close_tx tx w) = rows_of w"
  "rows_of (tx_Rollback tx w) = rows_of w"
  "rows_of (w\<lparr>table := Some rs\<rparr>) = rs"
  by (simp_all add: rows_of_def)

lemma dirty_of_upsert [simp]: "dirty_of ns v (upsert ns v d rs) = Some d"
  by (induction rs) (simp_all add: dirty_of_def)

lemma dirty_of_upsert_other:
  "(ns', v') \<noteq> (ns, v) \<Longrightarrow> dirty_of ns v (upsert ns' v' d rs) = dirty_of ns v rs"
  by (induction rs) (auto simp: dirty_of_def)

subsection \<open>The order of mark-clean and commit\<close>

text \<open>
  Claim C3, as stated, fails: the write that clears the dirty flag is issued before the
  commit, not after it.  When the commit fails, the unit has failed and the record of the
  version says \<open>dirty = False\<close>.
\<close>

theorem mark_clean_precedes_commit_counterexample:
  "fst (applyMigration first_mig commit_fails_world) = Some (CallError (TxCommit 0))
   \<and> calls_since commit_fails_world (snd (applyMigration first_mig commit_fails_world))
       = [(DbBegin, Succeeded), (DbUpsert ''core'' 1 True, Succeeded),
          (TxExec 0 ''CREATE A'', Succeeded), (DbUpsert ''core'' 1 False, Succeeded),
          (TxCommit 0, Failed)]
   \<and> dirty_of ''core'' 1 (rows_of (snd (applyMigration first_mig commit_fails_world))) = Some False
   \<and> committed (snd (applyMigration first_mig commit_fails_world)) = []"
  by (simp add: applyMigration_def BeginTxx_def setVersion_def tx_ExecContext_def tx_Commit_def
        fails_def calls_since_def first_mig_def commit_fails_world_def rows_of_def dirty_of_def)

text \<open>
  Claim C3, amended.  In a single-version apply unit the write that sets \<open>dirty = False\<close>
  is a write of its own on the database handle, outside the transaction, issued only
  after the up-script has been executed successfully in the transaction; the commit is
  issued only after that write has succeeded, as the fifth and last call.  If the unit
  fails at the execution of the script or at the mark-clean write, the record of the
  version has \<open>dirty = True\<close>.
\<close>

theorem mark_clean_after_script_before_commit:
  "((DbUpsert (Namespace mig) (Version mig) False, out)
        \<in> set (calls_since w (snd (applyMigration mig w)))
      \<longrightarrow> take 4 (calls_since w (snd (applyMigration mig w)))
            = [(DbBegin, Succeeded), (DbUpsert (Namespace mig) (Version mig) True, Succeeded),
               (TxExec (next_tx w) (UpSQL mig), Succeeded),
               (DbUpsert (Namespace mig) (Version mig) False, out)])
   \<and> ((TxCommit tx, out') \<in> set (calls_since w (snd (applyMigration mig w)))
      \<longrightarrow> calls_since w (snd (applyMigration mig w))
            = [(DbBegin, Succeeded), (DbUpsert (Namespace mig) (Version mig) True, Succeeded),
               (TxExec (next_tx w) (UpSQL mig), Succeeded),
               (DbUpsert (Namespace mig) (Version mig) False, Succeeded),
               (TxCommit tx, out')])
   \<and> (fst (applyMigration mig w) = Some (Wrap ExecSQLCtx e)
        \<or> fst (applyMigration mig w) = Some (Wrap MarkCleanCtx e)
      \<longrightarrow> dirty_of (Namespace mig) (Version mig) (rows_of (snd (applyMigration mig w)))
            = Some True)"
  by (auto simp: applyMigration_def BeginTxx_def setVersion_def tx_ExecContext_def tx_Commit_def
        fails_def calls_since_def rows_of_def Let_def split: option.splits)

theorem mark_clean_after_script_before_commit_witness:
  "fst (applyMigration first_mig script_fails_world)
     = Some (Wrap ExecSQLCtx (CallError (TxExec 0 ''CREATE A'')))
   \<and> dirty_of ''core'' 1 (rows_of (snd (applyMigration first_mig script_fails_world))) = Some True
   \<and> (TxCommit 0, Failed)
       \<in> set (calls_since commit_fails_world (snd (applyMigration first_mig commit_fails_world)))
   \<and> calls_since commit_fails_world (snd (applyMigration first_mig commit_fails_world))
       = [(DbBegin, Succeeded), (DbUpsert ''core'' 1 True, Succeeded),
          (TxExec 0 ''CREATE A'', Succeeded), (DbUpsert ''core'' 1 False, Succeeded),
          (TxCommit 0, Failed)]"
  using mark_clean_after_script_before_commit
          [of first_mig Succeeded commit_fails_world 0 Failed "CallError (TxExec 0 ''CREATE A'')"]
        mark_clean_after_script_before_commit
          [of first_mig Succeeded script_fails_world 0 Failed "CallError (TxExec 0 ''CREATE A'')"]
  by (simp add: applyMigration_def BeginTxx_def setVersion_def tx_ExecContext_def tx_Commit_def
        fails_def calls_since_def first_mig_def commit_fails_world_def script_fails_world_def)

subsection \<open>The loader\<close>

lemma os_frame_refl [simp]: "os_frame w w"
  by (simp add: os_frame_def)

lemma os_frame_trans: "os_frame w w1 \<Longrightarrow> os_frame w1 w2 \<Longrightarrow> os_frame w w2"
  by (auto simp: os_frame_def)

lemma os_frame_log_call [simp]: "is_os_call c \<Longrightarrow> os_frame w (log_call c out w)"
  by (simp add: os_frame_def)

lemma os_frame_warnings [simp]: "os_frame w (w'\<lparr>warnings := ws\<rparr>) = os_frame w w'"
  by (simp add: os_frame_def)

lemma os_frame_fs: "os_frame w w' \<Longrightarrow> fs w' = fs w"
  by (simp add: os_frame_def)

lemma os_ReadFile_frame: "os_ReadFile ns filename w = (r, w') \<Longrightarrow> os_frame w w'"
  by (auto simp: os_ReadFile_def is_os_call_def split: option.splits if_splits)

lemma os_Stat_frame: "os_Stat ns w = (r, w') \<Longrightarrow> os_frame w w'"
  by (auto simp: os_Stat_def is_os_call_def split: option.splits if_splits)

lemma os_ReadDir_frame: "os_ReadDir ns w = (r, w') \<Longrightarrow> os_frame w w'"
  by (auto simp: os_ReadDir_def is_os_call_def split: option.splits node.splits if_splits)

lemma loadFile_frame: "loadFile ns fl migs w = (r, w') \<Longrightarrow> os_frame w w'"
  by (auto simp: loadFile_def Let_def dest: os_ReadFile_frame
        split: option.splits prod.splits sum.splits if_splits)

lemma loadLoop_frame: "loadLoop ns files migs w = (r, w') \<Longrightarrow> os_frame w w'"
proof (induction files arbitrary: migs w)
  case Nil
  then show ?case by simp
next
  case (Cons fl files)
  obtain res w1 where a: "loadFile ns fl migs w = (res, w1)"
    by (cases "loadFile ns fl migs w")
  then have f1: "os_frame w w1" by (rule loadFile_frame)
  show ?case
  proof (cases res)
    case (Inl err)
    with a Cons.prems f1 show ?thesis by simp
  next
    case (Inr migs1)
    with a Cons.prems have "loadLoop ns files migs1 w1 = (r, w')" by simp
    then have "os_frame w1 w'" by (rule Cons.IH)
    with f1 show ?thesis by (rule os_frame_trans)
  qed
qed

lemma loadMigrationFiles_frame: "loadMigrationFiles ns w = (r, w') \<Longrightarrow> os_frame w w'"
  by (auto simp: loadMigrationFiles_def
        dest!: os_Stat_frame os_ReadDir_frame loadLoop_frame
        intro: os_frame_trans
        split: outcome.splits sum.splits prod.splits)

text \<open>With a reliable filesystem the loaded migrations depend on the files only.\<close>

lemma os_reliable_frame: "os_frame w w' \<Longrightarrow> os_reliable w \<Longrightarrow> os_reliable w'"
  by (simp add: os_frame_def os_reliable_def)

lemma os_reliable_fails [simp]: "os_reliable w \<Longrightarrow> is_os_call c \<Longrightarrow> \<not> fails w c"
  by (simp add: os_reliable_def fails_def)

lemma is_os_call_simps [simp]:
  "is_os_call (OsStat ns)" "is_os_call (OsReadDir ns)" "is_os_call OsReadDirRoot"
  "is_os_call (OsReadFile ns filename)"
  by (simp_all add: is_os_call_def)

lemma loadFile_indep:
  assumes "os_reliable w" and "os_reliable w'" and "fs w = fs w'"
  shows "fst (loadFile ns fl migs w) = fst (loadFile ns fl migs w')"
  using assms
  by (simp add: loadFile_def os_ReadFile_def file_content_def Let_def split: option.splits)

lemma loadLoop_indep:
  assumes "os_reliable w" and "os_reliable w'" and "fs w = fs w'"
  shows "fst (loadLoop ns files migs w) = fst (loadLoop ns files migs w')"
  using assms
proof (induction files arbitrary: migs w w')
  case Nil
  show ?case by simp
next
  case (Cons fl files)
  obtain res w1 where a: "loadFile ns fl migs w = (res, w1)"
    by (cases "loadFile ns fl migs w")
  obtain res' w1' where b: "loadFile ns fl migs w' = (res', w1')"
    by (cases "loadFile ns fl migs w'")
  from a b loadFile_indep [OF Cons.prems, of ns fl migs] have eq: "res' = res" by simp
  from a have f: "os_frame w w1" by (rule loadFile_frame)
  from b have f': "os_frame w' w1'" by (rule loadFile_frame)
  have r: "os_reliable w1" "os_reliable w1'"
    using f f' Cons.prems os_reliable_frame by blast+
  have "fs w1 = fs w1'" using f f' Cons.prems by (simp add: os_frame_def)
  with r Cons.IH
  have "\<And>migs1. fst (loadLoop ns files migs1 w1) = fst (loadLoop ns files migs1 w1')"
    by blast
  with a b eq show ?case by (simp split: sum.splits)
qed

lemma loadMigrationFiles_indep:
  assumes "os_reliable w" and "os_reliable w'" and "fs w = fs w'"
  shows "fst (loadMigrationFiles ns w) = fst (loadMigrationFiles ns w')"
proof -
  obtain out w1 where s: "os_Stat ns w = (out, w1)" by (cases "os_Stat ns w")
  obtain out' w1' where s': "os_Stat ns w' = (out', w1')" by (cases "os_Stat ns w'")
  have o: "out' = out"
    using s s' assms by (auto simp: os_Stat_def split: option.splits)
  have f1: "os_frame w w1" "os_frame w' w1'"
    using s s' by (auto dest: os_Stat_frame)
  have r1: "os_reliable w1" "os_reliable w1'"
    using f1 assms os_reliable_frame by blast+
  have g1: "fs w1 = fs w1'" using f1 assms by (simp add: os_frame_def)
  obtain res w2 where d: "os_ReadDir ns w1 = (res, w2)" by (cases "os_ReadDir ns w1")
  obtain res' w2' where d': "os_ReadDir ns w1' = (res', w2')" by (cases "os_ReadDir ns w1'")
  have e: "res' = res"
    using d d' r1 g1 by (auto simp: os_ReadDir_def split: option.splits node.splits)
  have f2: "os_frame w1 w2" "os_frame w1' w2'"
    using d d' by (auto dest: os_ReadDir_frame)
  have r2: "os_reliable w2" "os_reliable w2'"
    using f2 r1 os_reliable_frame by blast+
  have g2: "fs w2 = fs w2'" using f2 g1 by (simp add: os_frame_def)
  have l: "\<And>files. fst (loadLoop ns files [] w2) = fst (loadLoop ns files [] w2')"
    using r2 g2 by (rule loadLoop_indep)
  show ?thesis
  proof (cases res)
    case (Inl err)
    with s s' o d d' e show ?thesis
      by (simp add: loadMigrationFiles_def split: outcome.splits)
  next
    case (Inr files)
    obtain m w3 where a: "loadLoop ns files [] w2 = (m, w3)"
      by (cases "loadLoop ns files [] w2")
    obtain m' w3' where b: "loadLoop ns files [] w2' = (m', w3')"
      by (cases "loadLoop ns files [] w2'")
    from a b l [of files] have "m' = m" by simp
    with Inr a b s s' o d d' e show ?thesis
      by (simp add: loadMigrationFiles_def split: outcome.splits sum.splits)
  qed
qed

lemma distinct_map_insort_key:
  "distinct (map f (insort_key f x xs)) = (f x \<notin> f ` set xs \<and> distinct (map f xs))"
  by (induction xs) (auto simp: set_insort_key)

lemma distinct_map_sort_key: "distinct (map f (sort_key f xs)) = distinct (map f xs)"
  by (induction xs) (simp_all add: sort_key_simps distinct_map_insort_key)

text \<open>What the loop body does to the keys and the values of the map.\<close>

lemma getOrNew_Version:
  "\<forall>k m. map_of migs k = Some m \<longrightarrow> Version m = k \<and> Namespace m = ns
   \<Longrightarrow> Version (getOrNew migs v ns) = v \<and> Namespace (getOrNew migs v ns) = ns"
  by (simp add: getOrNew_def newMigrationFile_def split: option.splits)

lemma loadFile_cases:
  "loadFile ns fl migs w = (Inr migs', w')
   \<Longrightarrow> (entry_version fl = None \<and> migs' = migs)
       \<or> (\<exists>v m. entry_version fl = Some v \<and> migs' = AList.update v m migs)"
  by (auto simp: loadFile_def entry_version_def Let_def
        split: option.splits prod.splits sum.splits if_splits)

lemma loadFile_keys:
  "loadFile ns fl migs w = (Inr migs', w')
   \<Longrightarrow> fst ` set migs' = fst ` set migs \<union> set_option (entry_version fl)"
  by (drule loadFile_cases, elim disjE exE conjE; simp add: dom_update)

lemma loadFile_distinct:
  "loadFile ns fl migs w = (Inr migs', w') \<Longrightarrow> distinct (map fst migs)
   \<Longrightarrow> distinct (map fst migs')"
  by (auto simp: loadFile_def Let_def distinct_update
        split: option.splits prod.splits sum.splits if_splits)

lemma loadFile_wf:
  assumes "loadFile ns fl migs w = (Inr migs', w')"
    and "\<forall>k m. map_of migs k = Some m \<longrightarrow> Version m = k \<and> Namespace m = ns"
  shows "\<forall>k m. map_of migs' k = Some m \<longrightarrow> Version m = k \<and> Namespace m = ns"
  using assms(1) getOrNew_Version [OF assms(2)] assms(2)
  by (auto simp: loadFile_def Let_def update_conv'
        split: option.splits prod.splits sum.splits if_splits)

lemma loadFile_UpSQL:
  assumes "loadFile ns fl migs w = (Inr migs', w')"
    and "map_of migs' k = Some m" and "UpSQL m \<noteq> []"
  shows "(\<exists>m0. map_of migs k = Some m0 \<and> UpSQL m0 \<noteq> [])
         \<or> (HasSuffix (fst fl) ''.up.sql'' \<and> entry_version fl = Some k)"
  using assms
  by (auto simp: loadFile_def entry_version_def Let_def update_conv' getOrNew_def
        newMigrationFile_def
        split: option.splits prod.splits sum.splits if_splits)

lemma loadLoop_keys:
  "loadLoop ns files migs w = (Inr migs', w')
   \<Longrightarrow> fst ` set migs' = fst ` set migs \<union> (\<Union>fl \<in> set files. set_option (entry_version fl))"
proof (induction files arbitrary: migs w)
  case Nil
  then show ?case by simp
next
  case (Cons fl files)
  then obtain migs1 w1 where a: "loadFile ns fl migs w = (Inr migs1, w1)"
    and b: "loadLoop ns files migs1 w1 = (Inr migs', w')"
    by (auto split: prod.splits sum.splits)
  from loadFile_keys [OF a] Cons.IH [OF b] show ?case by auto
qed

lemma loadLoop_wf:
  "loadLoop ns files migs w = (Inr migs', w')
   \<Longrightarrow> distinct (map fst migs)
   \<Longrightarrow> \<forall>k m. map_of migs k = Some m \<longrightarrow> Version m = k \<and> Namespace m = ns
   \<Longrightarrow> distinct (map fst migs')
       \<and> (\<forall>k m. map_of migs' k = Some m \<longrightarrow> Version m = k \<and> Namespace m = ns)"
proof (induction files arbitrary: migs w)
  case Nil
  then show ?case by simp
next
  case (Cons fl files)
  from Cons.prems(1) obtain migs1 w1 where a: "loadFile ns fl migs w = (Inr migs1, w1)"
    and b: "loadLoop ns files migs1 w1 = (Inr migs', w')"
    by (auto split: prod.splits sum.splits)
  from loadFile_distinct [OF a Cons.prems(2)] loadFile_wf [OF a Cons.prems(3)] Cons.IH [OF b]
  show ?case by blast
qed

lemma loadLoop_UpSQL:
  "loadLoop ns files migs w = (Inr migs', w')
   \<Longrightarrow> map_of migs' k = Some m \<Longrightarrow> UpSQL m \<noteq> []
   \<Longrightarrow> (\<exists>m0. map_of migs k = Some m0 \<and> UpSQL m0 \<noteq> [])
       \<or> (\<exists>fl \<in> set files. HasSuffix (fst fl) ''.up.sql'' \<and> entry_version fl = Some k)"
proof (induction files arbitrary: migs w)
  case Nil
  then show ?case by simp
next
  case (Cons fl files)
  from Cons.prems(1) obtain migs1 w1 where a: "loadFile ns fl migs w = (Inr migs1, w1)"
    and b: "loadLoop ns files migs1 w1 = (Inr migs', w')"
    by (auto split: prod.splits sum.splits)
  from Cons.IH [OF b Cons.prems(2,3)] loadFile_UpSQL [OF a] show ?case by fastforce
qed

text \<open>
  A successful load, unfolded: the directory was listed, the loop ran over its entries
  from the empty map, and the result is the values of the map sorted by version.
\<close>

lemma loadMigrationFiles_Inr:
  assumes "loadMigrationFiles ns w = (Inr ms, w')"
    and "map_of (fs w) ns = Some (Directory ents)"
  shows "\<exists>migs w2. os_frame w w2 \<and> loadLoop ns ents [] w2 = (Inr migs, w')
           \<and> ms = sort_key Version (map snd migs)"
proof -
  obtain out w1 where s: "os_Stat ns w = (out, w1)" by (cases "os_Stat ns w")
  then have f1: "os_frame w w1" by (rule os_Stat_frame)
  from s assms(2) have o: "out \<noteq> NotFound"
    by (auto simp: os_Stat_def split: if_splits)
  obtain res w2 where d: "os_ReadDir ns w1 = (res, w2)" by (cases "os_ReadDir ns w1")
  then have "os_frame w1 w2" by (rule os_ReadDir_frame)
  with f1 have f2: "os_frame w w2" by (rule os_frame_trans)
  from f1 assms(2) have "map_of (fs w1) ns = Some (Directory ents)"
    by (simp add: os_frame_def)
  with d have r: "res = Inr ents \<or> (\<exists>e. res = Inl e)"
    by (auto simp: os_ReadDir_def split: if_splits)
  from assms(1) s o d r f2 show ?thesis
    by (auto simp: loadMigrationFiles_def split: outcome.splits sum.splits prod.splits)
qed

lemma loaded_migrations:
  assumes "loadMigrationFiles ns w = (Inr ms, w')"
    and "map_of (fs w) ns = Some (Directory ents)"
  shows "set (map Version ms) = (\<Union>fl \<in> set ents. set_option (entry_version fl))"
    and "sorted (map Version ms)" and "distinct (map Version ms)"
    and "\<forall>m \<in> set ms. Namespace m = ns"
    and "\<forall>m \<in> set ms. UpSQL m \<noteq> []
           \<longrightarrow> (\<exists>fl \<in> set ents. HasSuffix (fst fl) ''.up.sql'' \<and> entry_version fl = Some (Version m))"
proof -
  from loadMigrationFiles_Inr [OF assms] obtain migs w2
    where l: "loadLoop ns ents [] w2 = (Inr migs, w')"
      and ms: "ms = sort_key Version (map snd migs)" by blast
  from loadLoop_wf [OF l] have dist: "distinct (map fst migs)"
    and wf: "\<forall>k m. map_of migs k = Some m \<longrightarrow> Version m = k \<and> Namespace m = ns" by simp_all
  have vk: "\<forall>p \<in> set migs. Version (snd p) = fst p \<and> Namespace (snd p) = ns"
    using dist wf by (metis map_of_is_SomeI prod.collapse)
  then have mv: "map Version (map snd migs) = map fst migs" by simp
  have "set (map Version ms) = fst ` set migs"
    using ms mv by (metis set_map set_sort)
  with loadLoop_keys [OF l] show "set (map Version ms) = (\<Union>fl \<in> set ents. set_option (entry_version fl))"
    by simp
  show "sorted (map Version ms)" using ms by (simp add: sorted_sort_key)
  show "distinct (map Version ms)"
    unfolding ms distinct_map_sort_key mv by (rule dist)
  show "\<forall>m \<in> set ms. Namespace m = ns" using ms vk by auto
  show "\<forall>m \<in> set ms. UpSQL m \<noteq> []
           \<longrightarrow> (\<exists>fl \<in> set ents. HasSuffix (fst fl) ''.up.sql'' \<and> entry_version fl = Some (Version m))"
  proof (intro ballI impI)
    fix m assume "m \<in> set ms" and u: "UpSQL m \<noteq> []"
    then obtain k where "(k, m) \<in> set migs" using ms by auto
    with dist vk have "map_of migs k = Some m" and "Version m = k" by auto
    with loadLoop_UpSQL [OF l _ u, of k] show
      "\<exists>fl \<in> set ents. HasSuffix (fst fl) ''.up.sql'' \<and> entry_version fl = Some (Version m)"
      by simp
  qed
qed

subsection \<open>Which files the loader takes\<close>

lemma Split_nonempty [simp]: "Split s c \<noteq> []"
  by (induction s) (auto split: list.splits)

lemma hd_Split: "hd (Split s c) = takeWhile (\<lambda>x. x \<noteq> c) s"
  by (induction s) (auto split: list.splits)

lemma length_Split: "length (Split s c) = Suc (length (filter (\<lambda>x. x = c) s))"
  by (induction s) (auto split: list.splits)

lemma Split_two: "(2 \<le> length (Split s c)) = (c \<in> set s)"
  by (simp add: length_Split filter_empty_conv Suc_le_eq numeral_2_eq_2)

lemma Atoi_negative:
  "ds \<noteq> [] \<Longrightarrow> digits ds 0 = Some n \<Longrightarrow> n \<le> 2 ^ 63
   \<Longrightarrow> Atoi (CHR ''-'' # ds) = Some (- int n)"
proof -
  assume a: "ds \<noteq> []" "digits ds 0 = Some n" "n \<le> 2 ^ 63"
  have "int n \<le> 2 ^ 63" using a(3) by (metis of_nat_le_iff of_nat_numeral of_nat_power)
  with a show ?thesis by (simp add: Atoi_def)
qed

lemma loadMigrationFiles_signed:
  "fst (loadMigrationFiles ''core'' signed_world) = Inr signed_loaded"
  by (simp add: signed_world_def signed_dir_def signed_loaded_def loadMigrationFiles_def
        os_Stat_def os_ReadDir_def os_ReadFile_def file_content_def fails_def loadFile_def
        Atoi_def digit_def HasSuffix_def TrimSuffix_def getOrNew_def newMigrationFile_def
        Let_def)

text \<open>
  Claim C6, as stated, fails: a file whose prefix parses as a negative integer is not
  skipped.  \<open>strconv.Atoi\<close> accepts a sign, and the loader does not test the sign of the
  version: the file \<^verbatim>\<open>-5_neg.up.sql\<close> is loaded as the migration of version -5.
\<close>

theorem loader_skips_negative_prefix_counterexample:
  "fst (loadMigrationFiles ''core'' negative_prefix_world)
   = Inr [\<lparr>Version = - 5, Description = ''neg'', Namespace = ''core'', UpSQL = ''DROP X'',
           DownSQL = []\<rparr>]"
  by (simp add: negative_prefix_world_def loadMigrationFiles_def os_Stat_def os_ReadDir_def
        os_ReadFile_def file_content_def fails_def loadFile_def Atoi_def digit_def HasSuffix_def
        TrimSuffix_def getOrNew_def newMigrationFile_def Let_def)

text \<open>
  Claim C6, amended.  When the directory of a namespace is loaded, the versions of the
  loaded migrations are exactly the integers that \<open>Atoi\<close> parses from the prefix before
  the first underscore of a regular file whose name contains an underscore and ends in
  \<^verbatim>\<open>.up.sql\<close> or \<^verbatim>\<open>.down.sql\<close>; a file whose prefix \<open>Atoi\<close> rejects contributes no
  migration.  \<open>Atoi\<close> parses a minus sign followed by digits as the negative number, so a
  negative prefix is taken.
\<close>

theorem loader_takes_every_Atoi_prefix:
  assumes "fst (loadMigrationFiles N w) = Inr ms"
    and "map_of (fs w) N = Some (Directory ents)"
  shows "set (map Version ms)
           = {v. \<exists>filename content.
                   (filename, RegFile content) \<in> set ents
                   \<and> CHR ''_'' \<in> set filename
                   \<and> Atoi (takeWhile (\<lambda>x. x \<noteq> CHR ''_'') filename) = Some v
                   \<and> (HasSuffix filename ''.up.sql'' \<or> HasSuffix filename ''.down.sql'')}
       \<and> (\<forall>ds n. ds \<noteq> [] \<and> digits ds 0 = Some n \<and> n \<le> 2 ^ 63
            \<longrightarrow> Atoi (CHR ''-'' # ds) = Some (- int n))"
proof -
  obtain w' where l: "loadMigrationFiles N w = (Inr ms, w')"
    using assms(1) by (cases "loadMigrationFiles N w") simp
  have ev: "\<And>fl v. (entry_version fl = Some v)
       = (\<exists>content. snd fl = RegFile content \<and> CHR ''_'' \<in> set (fst fl)
            \<and> Atoi (takeWhile (\<lambda>x. x \<noteq> CHR ''_'') (fst fl)) = Some v
            \<and> (HasSuffix (fst fl) ''.up.sql'' \<or> HasSuffix (fst fl) ''.down.sql''))"
  proof -
    fix fl :: "string \<times> entry" and v
    have "(length (Split (fst fl) CHR ''_'') < 2) = (CHR ''_'' \<notin> set (fst fl))"
      using Split_two [of "fst fl" "CHR ''_''"] by (simp add: not_le [symmetric])
    then show "(entry_version fl = Some v)
       = (\<exists>content. snd fl = RegFile content \<and> CHR ''_'' \<in> set (fst fl)
            \<and> Atoi (takeWhile (\<lambda>x. x \<noteq> CHR ''_'') (fst fl)) = Some v
            \<and> (HasSuffix (fst fl) ''.up.sql'' \<or> HasSuffix (fst fl) ''.down.sql''))"
      by (cases "snd fl") (auto simp: entry_version_def hd_Split)
  qed
  have "set (map Version ms) = (\<Union>fl \<in> set ents. set_option (entry_version fl))"
    using loaded_migrations(1) [OF l assms(2)] .
  also have "\<dots> = {v. \<exists>fl \<in> set ents. entry_version fl = Some v}"
    by (auto simp: elem_set)
  also have "\<dots> = {v. \<exists>filename content.
                   (filename, RegFile content) \<in> set ents
                   \<and> CHR ''_'' \<in> set filename
                   \<and> Atoi (takeWhile (\<lambda>x. x \<noteq> CHR ''_'') filename) = Some v
                   \<and> (HasSuffix filename ''.up.sql'' \<or> HasSuffix filename ''.down.sql'')}"
    unfolding ev by force
  finally show ?thesis using Atoi_negative by blast
qed

theorem loader_takes_every_Atoi_prefix_witness:
  "fst (loadMigrationFiles ''core'' signed_world) = Inr signed_loaded
   \<and> map_of (fs signed_world) ''core'' = Some (Directory signed_dir)
   \<and> set (map Version signed_loaded) = {- 5, 1}
   \<and> set (map Version signed_loaded)
       = {v. \<exists>filename content.
               (filename, RegFile content) \<in> set signed_dir
               \<and> CHR ''_'' \<in> set filename
               \<and> Atoi (takeWhile (\<lambda>x. x \<noteq> CHR ''_'') filename) = Some v
               \<and> (HasSuffix filename ''.up.sql'' \<or> HasSuffix filename ''.down.sql'')}
   \<and> Atoi ''-5'' = Some (- 5)"
proof -
  have h2: "map_of (fs signed_world) ''core'' = Some (Directory signed_dir)"
    by (simp add: signed_world_def)
  have d: "digits ''5'' 0 = Some 5" by (simp add: digit_def)
  from loader_takes_every_Atoi_prefix [OF loadMigrationFiles_signed h2] d
  have "Atoi ''-5'' = Some (- 5)" by force
  with loader_takes_every_Atoi_prefix [OF loadMigrationFiles_signed h2]
    loadMigrationFiles_signed h2
  show ?thesis by (simp add: signed_loaded_def)
qed

subsection \<open>Every operation extends the trace\<close>

lemma run_frame_refl [simp]: "run_frame w w"
  by (simp add: run_frame_def)

lemma run_frame_trans: "run_frame w w1 \<Longrightarrow> run_frame w1 w2 \<Longrightarrow> run_frame w w2"
  by (auto simp: run_frame_def)

lemma os_frame_run_frame: "os_frame w w' \<Longrightarrow> run_frame w w'"
  by (auto simp: os_frame_def run_frame_def)

lemma run_frame_trace: "run_frame w w' \<Longrightarrow> trace w' = trace w @ calls_since w w'"
  by (auto simp: run_frame_def calls_since_def)

lemma calls_since_self [simp]: "calls_since w w = []"
  by (simp add: calls_since_def)

lemma calls_since_trans:
  "run_frame w w1 \<Longrightarrow> run_frame w1 w2
   \<Longrightarrow> calls_since w w2 = calls_since w w1 @ calls_since w1 w2"
  by (auto simp: run_frame_def calls_since_def)

lemma run_frame_log_call [simp]: "run_frame w (log_call c out w)"
  by (simp add: run_frame_def)

lemma run_frame_updates [simp]:
  "run_frame w (w'\<lparr>table := t\<rparr>) = run_frame w w'"
  "run_frame w (w'\<lparr>committed := cs\<rparr>) = run_frame w w'"
  "run_frame w (w'\<lparr>open_txs := os\<rparr>) = run_frame w w'"
  "run_frame w (w'\<lparr>next_tx := n\<rparr>) = run_frame w w'"
  "run_frame w (w'\<lparr>warnings := ws\<rparr>) = run_frame w w'"
  "run_frame w (close_tx tx w') = run_frame w w'"
  by (simp_all add: run_frame_def)

lemma run_frame_log_callI: "run_frame w w' \<Longrightarrow> run_frame w (log_call c out w')"
  by (auto simp: run_frame_def)

lemma ensureMigrationsTable_frame: "ensureMigrationsTable w = (r, w') \<Longrightarrow> run_frame w w'"
  by (auto simp: ensureMigrationsTable_def intro: run_frame_log_callI split: if_splits)

lemma getCurrentVersion_frame: "getCurrentVersion ns w = (r, w') \<Longrightarrow> run_frame w w'"
  by (auto simp: getCurrentVersion_def Let_def split: if_splits option.splits)

lemma setVersion_frame: "setVersion ns v d w = (r, w') \<Longrightarrow> run_frame w w'"
  by (auto simp: setVersion_def Let_def intro: run_frame_log_callI
        split: if_splits option.splits)

lemma deleteVersion_frame: "deleteVersion ns v w = (r, w') \<Longrightarrow> run_frame w w'"
  by (auto simp: deleteVersion_def Let_def intro: run_frame_log_callI
        split: if_splits option.splits)

lemma BeginTxx_frame: "BeginTxx w = (r, w') \<Longrightarrow> run_frame w w'"
  by (auto simp: BeginTxx_def intro: run_frame_log_callI split: if_splits)

lemma tx_ExecContext_frame: "tx_ExecContext tx sql w = (r, w') \<Longrightarrow> run_frame w w'"
  by (auto simp: tx_ExecContext_def intro: run_frame_log_callI split: if_splits)

lemma tx_Commit_frame: "tx_Commit tx w = (r, w') \<Longrightarrow> run_frame w w'"
  by (auto simp: tx_Commit_def intro: run_frame_log_callI split: if_splits)

lemma tx_Rollback_frame: "run_frame w w' \<Longrightarrow> run_frame w (tx_Rollback tx w')"
  by (simp add: tx_Rollback_def run_frame_log_callI)

lemma loadMigrationFiles_run_frame: "loadMigrationFiles ns w = (r, w') \<Longrightarrow> run_frame w w'"
  by (blast intro: os_frame_run_frame loadMigrationFiles_frame)

lemma applyMigration_frame: "applyMigration mig w = (r, w') \<Longrightarrow> run_frame w w'"
  by (auto simp: applyMigration_def
        dest!: BeginTxx_frame setVersion_frame tx_ExecContext_frame tx_Commit_frame
        split: prod.splits sum.splits option.splits)
     (blast intro: run_frame_trans tx_Rollback_frame)+

lemma applyPending_frame: "applyPending migs w = (r, w') \<Longrightarrow> run_frame w w'"
proof (induction migs arbitrary: w)
  case Nil
  then show ?case by simp
next
  case (Cons mig migs)
  then show ?case
    by (auto dest!: applyMigration_frame intro: run_frame_trans
          split: prod.splits option.splits)
qed

lemma MigrateNamespace_frame: "MigrateNamespace ns w = (r, w') \<Longrightarrow> run_frame w w'"
  by (auto simp: MigrateNamespace_def Let_def
        dest!: ensureMigrationsTable_frame getCurrentVersion_frame
          loadMigrationFiles_run_frame applyPending_frame
        intro: run_frame_trans
        split: prod.splits sum.splits option.splits if_splits)

lemma rollbackMigration_frame: "rollbackMigration mig w = (r, w') \<Longrightarrow> run_frame w w'"
  by (auto simp: rollbackMigration_def
        dest!: BeginTxx_frame deleteVersion_frame tx_ExecContext_frame tx_Commit_frame
        split: prod.splits sum.splits option.splits if_splits)
     (blast intro: run_frame_trans tx_Rollback_frame)+

lemma rollbackEach_frame: "rollbackEach migs w = (r, w') \<Longrightarrow> run_frame w w'"
proof (induction migs arbitrary: w)
  case Nil
  then show ?case by simp
next
  case (Cons mig migs)
  then show ?case
    by (auto dest!: rollbackMigration_frame intro: run_frame_trans
          split: prod.splits option.splits)
qed

lemma Rollback_frame: "Rollback ns steps w = (r, w') \<Longrightarrow> run_frame w w'"
  by (auto simp: Rollback_def Let_def
        dest!: getCurrentVersion_frame loadMigrationFiles_run_frame rollbackEach_frame
        intro: run_frame_trans
        split: prod.splits sum.splits option.splits if_splits)

lemma migrateModules_frame: "migrateModules mods w = (r, w') \<Longrightarrow> run_frame w w'"
proof (induction mods arbitrary: w)
  case Nil
  then show ?case by simp
next
  case (Cons m mods)
  then show ?case
    by (auto dest!: MigrateNamespace_frame intro: run_frame_trans
          split: prod.splits option.splits)
qed

lemma MigrateAll_frame: "MigrateAll mods w = (r, w') \<Longrightarrow> run_frame w w'"
  by (auto simp: MigrateAll_def dest!: MigrateNamespace_frame migrateModules_frame
        intro: run_frame_trans split: prod.splits option.splits)

subsection \<open>The guard reads the row of greatest version only\<close>

lemma max_row_None [simp]: "(max_row rs = None) = (rs = [])"
  by (induction rs) (auto split: option.splits)

lemma max_row_Some:
  "max_row rs = Some m \<Longrightarrow> m \<in> set rs \<and> (\<forall>r \<in> set rs. row_version r \<le> row_version m)"
  by (induction rs arbitrary: m) (fastforce split: option.splits if_splits)+

lemma current_row_Some:
  "current_row ns rs = Some m
   \<Longrightarrow> m \<in> set rs \<and> row_namespace m = ns
       \<and> (\<forall>r \<in> set rs. row_namespace r = ns \<longrightarrow> row_version r \<le> row_version m)"
  by (auto simp: current_row_def dest!: max_row_Some)

lemma current_row_greatest:
  assumes "distinct (map (\<lambda>r. (row_namespace r, row_version r)) rs)"
    and "r \<in> set rs" and "row_namespace r = ns"
    and "\<forall>r' \<in> set rs. row_namespace r' = ns \<longrightarrow> row_version r' \<le> row_version r"
  shows "current_row ns rs = Some r"
proof -
  have "filter (\<lambda>r. row_namespace r = ns) rs \<noteq> []"
    using assms(2,3) by (auto simp: filter_empty_conv)
  then obtain m where m: "current_row ns rs = Some m"
    by (cases "current_row ns rs") (simp_all add: current_row_def)
  from current_row_Some [OF m] assms(2,3,4)
  have "m \<in> set rs" "row_namespace m = ns" "row_version m = row_version r"
    by (auto intro: antisym)
  with assms(1,2,3) have "m = r"
    by (auto simp: distinct_map dest: inj_onD)
  with m show ?thesis by simp
qed

lemma applyPending_error: "fst (applyPending migs w) = Some e \<Longrightarrow> \<exists>v e'. e = Wrap (ApplyCtx v) e'"
  by (induction migs arbitrary: w) (auto split: prod.splits option.splits)

lemma rollbackEach_error:
  "fst (rollbackEach migs w) = Some e \<Longrightarrow> \<exists>v e'. e = Wrap (RollbackCtx v) e'"
  by (induction migs arbitrary: w) (auto split: prod.splits option.splits)

lemma os_Stat_logged: "\<exists>out. calls_since w (snd (os_Stat ns w)) = [(OsStat ns, out)]"
  by (simp add: os_Stat_def calls_since_def split: option.splits)

lemma loadMigrationFiles_logged:
  "\<exists>out. (OsStat ns, out) \<in> set (calls_since w (snd (loadMigrationFiles ns w)))"
proof -
  obtain o1 w1 where s: "os_Stat ns w = (o1, w1)" by (cases "os_Stat ns w")
  from os_Stat_logged [of w ns] s obtain out where c: "calls_since w w1 = [(OsStat ns, out)]"
    by auto
  from s have f1: "run_frame w w1" by (blast intro: os_frame_run_frame os_Stat_frame)
  obtain r w' where l: "loadMigrationFiles ns w = (r, w')" by (cases "loadMigrationFiles ns w")
  have "run_frame w1 w'"
    using l s
    by (auto simp: loadMigrationFiles_def
          dest!: os_ReadDir_frame loadLoop_frame
          intro: os_frame_run_frame os_frame_trans
          split: outcome.splits sum.splits prod.splits)
  from calls_since_trans [OF f1 this] c l show ?thesis by auto
qed

lemma calls_since_mono:
  "run_frame w w1 \<Longrightarrow> run_frame w1 w2 \<Longrightarrow> x \<in> set (calls_since w1 w2)
   \<Longrightarrow> x \<in> set (calls_since w w2)"
  using calls_since_trans [of w w1 w2] by simp

lemma calls_since_mono2:
  "run_frame w w1 \<Longrightarrow> run_frame w1 w2 \<Longrightarrow> x \<in> set (calls_since w w1)
   \<Longrightarrow> x \<in> set (calls_since w w2)"
  using calls_since_trans [of w w1 w2] by simp

text \<open>
  Claim C8.  Let the table hold, for a namespace, a row of version \<open>v\<close> that is dirty and a
  clean row of a greater version, its greatest.  Then \<open>getCurrentVersion\<close> returns that
  greatest version with \<open>dirty = False\<close>, neither \<open>MigrateNamespace\<close> nor \<open>Rollback\<close> returns
  a dirty-state error, and both go on to load the migration files (for \<open>Rollback\<close>, unless
  the greatest version is 0, where it returns at once).
\<close>

theorem dirty_guard_reads_greatest_version_only:
  assumes "table w = Some rows"
    and "distinct (map (\<lambda>r. (row_namespace r, row_version r)) rows)"
    and "\<lparr>row_namespace = N, row_version = v, row_dirty = True\<rparr> \<in> set rows"
    and "\<lparr>row_namespace = N, row_version = wv, row_dirty = False\<rparr> \<in> set rows"
    and "v < wv"
    and "\<forall>r \<in> set rows. row_namespace r = N \<longrightarrow> row_version r \<le> wv"
  shows "(\<not> fails w (DbQueryCurrent N) \<longrightarrow> fst (getCurrentVersion N w) = Inr (wv, False))
       \<and> (\<forall>ns cv b. fst (MigrateNamespace N w) \<noteq> Some (DirtyState ns cv b))
       \<and> (\<forall>ns cv b. fst (Rollback N steps w) \<noteq> Some (DirtyState ns cv b))
       \<and> (\<not> fails w DbEnsureTable \<and> \<not> faults w (Suc (length (trace w))) (DbQueryCurrent N)
            \<longrightarrow> (\<exists>out. (OsStat N, out) \<in> set (calls_since w (snd (MigrateNamespace N w)))))
       \<and> (\<not> fails w (DbQueryCurrent N) \<and> wv \<noteq> 0
            \<longrightarrow> (\<exists>out. (OsStat N, out) \<in> set (calls_since w (snd (Rollback N steps w)))))"
proof -
  have cur: "current_row N rows = Some \<lparr>row_namespace = N, row_version = wv, row_dirty = False\<rparr>"
    using assms(2,4,6) by (intro current_row_greatest) simp_all
  have gcv: "\<And>u. table u = Some rows \<Longrightarrow> \<not> fails u (DbQueryCurrent N)
       \<Longrightarrow> getCurrentVersion N u = (Inr (wv, False), log_call (DbQueryCurrent N) Succeeded u)"
    using cur by (simp add: getCurrentVersion_def Let_def)
  have gcv_err: "\<And>u. fails u (DbQueryCurrent N)
       \<Longrightarrow> \<exists>e u'. getCurrentVersion N u = (Inl e, u')"
    by (simp add: getCurrentVersion_def Let_def)
  have c1: "\<not> fails w (DbQueryCurrent N) \<longrightarrow> fst (getCurrentVersion N w) = Inr (wv, False)"
    using gcv [OF assms(1)] by simp
  \<comment> \<open>Rollback\<close>
  have rb: "(\<forall>ns cv b. fst (Rollback N steps w) \<noteq> Some (DirtyState ns cv b))
       \<and> (\<not> fails w (DbQueryCurrent N) \<and> wv \<noteq> 0
            \<longrightarrow> (\<exists>out. (OsStat N, out) \<in> set (calls_since w (snd (Rollback N steps w)))))"
  proof (cases "fails w (DbQueryCurrent N)")
    case True
    with gcv_err [of w] show ?thesis by (auto simp: Rollback_def)
  next
    case False
    define w1 where "w1 = log_call (DbQueryCurrent N) Succeeded w"
    have g: "getCurrentVersion N w = (Inr (wv, False), w1)"
      using gcv [OF assms(1) False] by (simp add: w1_def)
    have f1: "run_frame w w1" by (simp add: w1_def)
    obtain r w2 where l: "loadMigrationFiles N w1 = (r, w2)"
      by (cases "loadMigrationFiles N w1")
    then have f2: "run_frame w1 w2" by (rule loadMigrationFiles_run_frame)
    from loadMigrationFiles_logged [of N w1] l obtain out
      where st: "(OsStat N, out) \<in> set (calls_since w1 w2)" by auto
    obtain r' w' where rr: "Rollback N steps w = (r', w')" by (cases "Rollback N steps w")
    show ?thesis
    proof (cases "wv = 0")
      case True
      with g show ?thesis by (simp add: Rollback_def)
    next
      case nz: False
      have f3: "run_frame w2 w'"
        using rr g l nz
        by (auto simp: Rollback_def Let_def dest!: rollbackEach_frame
              split: sum.splits prod.splits if_splits)
      have "(OsStat N, out) \<in> set (calls_since w w')"
        using st f1 f2 f3 by (meson calls_since_mono calls_since_mono2 run_frame_trans)
      moreover have "\<forall>ns cv b. r' \<noteq> Some (DirtyState ns cv b)"
      proof (intro allI notI)
        fix ns cv b assume d: "r' = Some (DirtyState ns cv b)"
        with rr g l nz have "\<exists>migs. fst (rollbackEach migs w2) = Some (DirtyState ns cv b)"
          by (auto simp: Rollback_def Let_def split: sum.splits prod.splits if_splits)
             (metis fst_conv)
        then show False by (auto dest: rollbackEach_error)
      qed
      ultimately show ?thesis using rr by auto
    qed
  qed
  \<comment> \<open>MigrateNamespace\<close>
  have mn: "(\<forall>ns cv b. fst (MigrateNamespace N w) \<noteq> Some (DirtyState ns cv b))
       \<and> (\<not> fails w DbEnsureTable \<and> \<not> faults w (Suc (length (trace w))) (DbQueryCurrent N)
            \<longrightarrow> (\<exists>out. (OsStat N, out) \<in> set (calls_since w (snd (MigrateNamespace N w)))))"
  proof (cases "fails w DbEnsureTable")
    case True
    then show ?thesis by (simp add: MigrateNamespace_def ensureMigrationsTable_def)
  next
    case False
    define w1 where "w1 = log_call DbEnsureTable Succeeded (w\<lparr>table := Some rows\<rparr>)"
    have e: "ensureMigrationsTable w = (None, w1)"
      using False assms(1) by (simp add: ensureMigrationsTable_def w1_def)
    have t1: "table w1 = Some rows" by (simp add: w1_def)
    have f1: "run_frame w w1" by (simp add: w1_def run_frame_log_callI)
    have fl: "fails w1 (DbQueryCurrent N) = faults w (Suc (length (trace w))) (DbQueryCurrent N)"
      by (simp add: w1_def fails_def)
    show ?thesis
    proof (cases "fails w1 (DbQueryCurrent N)")
      case True
      with gcv_err [of w1] e fl show ?thesis by (auto simp: MigrateNamespace_def)
    next
      case nf: False
      define w2 where "w2 = log_call (DbQueryCurrent N) Succeeded w1"
      have g: "getCurrentVersion N w1 = (Inr (wv, False), w2)"
        using gcv [OF t1 nf] by (simp add: w2_def)
      have f2: "run_frame w1 w2" by (simp add: w2_def)
      obtain r w3 where l: "loadMigrationFiles N w2 = (r, w3)"
        by (cases "loadMigrationFiles N w2")
      then have f3: "run_frame w2 w3" by (rule loadMigrationFiles_run_frame)
      from loadMigrationFiles_logged [of N w2] l obtain out
        where st: "(OsStat N, out) \<in> set (calls_since w2 w3)" by auto
      obtain r' w' where rr: "MigrateNamespace N w = (r', w')"
        by (cases "MigrateNamespace N w")
      have f4: "run_frame w3 w'"
        using rr e g l
        by (auto simp: MigrateNamespace_def Let_def dest!: applyPending_frame
              split: sum.splits prod.splits if_splits)
      have "(OsStat N, out) \<in> set (calls_since w w')"
        using st f1 f2 f3 f4 by (meson calls_since_mono calls_since_mono2 run_frame_trans)
      moreover have "\<forall>ns cv b. r' \<noteq> Some (DirtyState ns cv b)"
      proof (intro allI notI)
        fix ns cv b assume d: "r' = Some (DirtyState ns cv b)"
        with rr e g l have "\<exists>migs. fst (applyPending migs w3) = Some (DirtyState ns cv b)"
          by (auto simp: MigrateNamespace_def Let_def split: sum.splits prod.splits if_splits)
             (metis fst_conv)
        then show False by (auto dest: applyPending_error)
      qed
      ultimately show ?thesis using rr by auto
    qed
  qed
  from c1 rb mn show ?thesis by blast
qed

theorem dirty_guard_reads_greatest_version_only_witness:
  "table stale_dirty_world = Some (rows_of stale_dirty_world)
   \<and> \<lparr>row_namespace = ''core'', row_version = 1, row_dirty = True\<rparr>
       \<in> set (rows_of stale_dirty_world)
   \<and> \<lparr>row_namespace = ''core'', row_version = 2, row_dirty = False\<rparr>
       \<in> set (rows_of stale_dirty_world)
   \<and> fst (getCurrentVersion ''core'' stale_dirty_world) = Inr (2, False)
   \<and> fst (MigrateNamespace ''core'' stale_dirty_world) \<noteq> Some (DirtyState ''core'' 2 True)
   \<and> fst (Rollback ''core'' 1 stale_dirty_world) \<noteq> Some (DirtyState ''core'' 2 False)"
proof -
  have h: "table stale_dirty_world = Some (rows_of stale_dirty_world)"
    "distinct (map (\<lambda>r. (row_namespace r, row_version r)) (rows_of stale_dirty_world))"
    "\<lparr>row_namespace = ''core'', row_version = 1, row_dirty = True\<rparr>
       \<in> set (rows_of stale_dirty_world)"
    "\<lparr>row_namespace = ''core'', row_version = 2, row_dirty = False\<rparr>
       \<in> set (rows_of stale_dirty_world)"
    "(1::int) < 2"
    "\<forall>r \<in> set (rows_of stale_dirty_world). row_namespace r = ''core'' \<longrightarrow> row_version r \<le> 2"
    by (simp_all add: stale_dirty_world_def rows_of_def)
  have nf: "\<not> fails stale_dirty_world (DbQueryCurrent ''core'')"
    by (simp add: fails_def stale_dirty_world_def)
  from dirty_guard_reads_greatest_version_only [OF h, of 1] nf h show ?thesis by blast
qed

subsection \<open>MigrateAll\<close>

lemma migrateModules_all:
  "migrate_each mods w = Some w' \<Longrightarrow> migrateModules mods w = (None, w')"
  by (induction mods arbitrary: w) (auto split: prod.splits option.splits)

lemma migrateModules_first_failure:
  "migrate_each pre w = Some w1 \<Longrightarrow> fst (MigrateNamespace ns w1) = Some e
   \<Longrightarrow> migrateModules (pre @ ns # post) w
       = (Some (Wrap (MigrateModuleCtx ns) e), snd (MigrateNamespace ns w1))"
  by (induction pre arbitrary: w) (auto split: prod.splits option.splits)

text \<open>
  Claim C5.  \<open>MigrateAll mods\<close> migrates the namespaces of the list \<open>''core'' # mods\<close> in
  that order, whether or not "core" is among \<open>mods\<close>.  When all of them succeed it
  succeeds, in the world the last one leaves.  When \<open>ns\<close> is the first that fails, after
  the namespaces \<open>pre\<close> before it have succeeded, it returns the error of \<open>ns\<close>, wrapped,
  in the world that \<open>ns\<close> leaves: nothing is done for the namespaces \<open>post\<close> after it.
\<close>

theorem MigrateAll_core_first_then_in_order:
  "(migrate_each (''core'' # mods) w = Some w' \<longrightarrow> MigrateAll mods w = (None, w'))
   \<and> (''core'' # mods = pre @ ns # post \<and> migrate_each pre w = Some w1
        \<and> fst (MigrateNamespace ns w1) = Some e
      \<longrightarrow> MigrateAll mods w
            = (Some (Wrap (if pre = [] then MigrateCoreCtx else MigrateModuleCtx ns) e),
               snd (MigrateNamespace ns w1)))"
proof (intro conjI impI)
  assume "migrate_each (''core'' # mods) w = Some w'"
  then show "MigrateAll mods w = (None, w')"
    by (auto simp: MigrateAll_def dest: migrateModules_all split: prod.splits option.splits)
next
  assume a: "''core'' # mods = pre @ ns # post \<and> migrate_each pre w = Some w1
        \<and> fst (MigrateNamespace ns w1) = Some e"
  show "MigrateAll mods w
            = (Some (Wrap (if pre = [] then MigrateCoreCtx else MigrateModuleCtx ns) e),
               snd (MigrateNamespace ns w1))"
  proof (cases pre)
    case Nil
    with a show ?thesis by (auto simp: MigrateAll_def split: prod.splits option.splits)
  next
    case (Cons p pre')
    with a have p: "p = ''core''" and m: "mods = pre' @ ns # post" by simp_all
    from a Cons p obtain w0 where c: "MigrateNamespace ''core'' w = (None, w0)"
      and e: "migrate_each pre' w0 = Some w1"
      by (auto split: prod.splits option.splits)
    from migrateModules_first_failure [OF e, of ns e post] a c m Cons show ?thesis
      by (simp add: MigrateAll_def)
  qed
qed

theorem MigrateAll_core_first_then_in_order_witness:
  "''core'' # [''a'', ''b'', ''c''] = [''core'', ''a''] @ ''b'' # [''c'']
   \<and> migrate_each [''core'', ''a''] b_fails_world = Some b_fails_world_after_a
   \<and> fst (MigrateNamespace ''b'' b_fails_world_after_a)
       = Some (Wrap GetVersionCtx (CallError (DbQueryCurrent ''b'')))
   \<and> MigrateAll [''a'', ''b'', ''c''] b_fails_world
       = (Some (Wrap (MigrateModuleCtx ''b'')
                  (Wrap GetVersionCtx (CallError (DbQueryCurrent ''b'')))),
          snd (MigrateNamespace ''b'' b_fails_world_after_a))
   \<and> MigrateAll [''a''] b_fails_world = (None, b_fails_world_after_a)"
proof -
  have h1: "migrate_each [''core'', ''a''] b_fails_world = Some b_fails_world_after_a"
    by (simp add: b_fails_world_after_a_def b_fails_world_def MigrateNamespace_def
          ensureMigrationsTable_def getCurrentVersion_def loadMigrationFiles_def os_Stat_def
          fails_def current_row_def Let_def)
  have h2: "fst (MigrateNamespace ''b'' b_fails_world_after_a)
       = Some (Wrap GetVersionCtx (CallError (DbQueryCurrent ''b'')))"
    by (simp add: b_fails_world_after_a_def b_fails_world_def MigrateNamespace_def
          ensureMigrationsTable_def getCurrentVersion_def loadMigrationFiles_def os_Stat_def
          fails_def current_row_def Let_def)
  from MigrateAll_core_first_then_in_order
         [of "[''a'', ''b'', ''c'']" b_fails_world b_fails_world_after_a "[''core'', ''a'']"
             "''b''" "[''c'']" b_fails_world_after_a
             "Wrap GetVersionCtx (CallError (DbQueryCurrent ''b''))"]
       MigrateAll_core_first_then_in_order
         [of "[''a'']" b_fails_world b_fails_world_after_a "[''core'', ''a'']"
             "''b''" "[''c'']" b_fails_world_after_a
             "Wrap GetVersionCtx (CallError (DbQueryCurrent ''b''))"]
       h1 h2
  show ?thesis by simp
qed

subsection \<open>Runs in which the store and the filesystem answer\<close>

lemma only_scripts_fail_simps [simp]:
  assumes "only_scripts_fail w"
  shows "\<not> faults w n DbEnsureTable" "\<not> faults w n (DbQueryCurrent ns)"
    "\<not> faults w n (DbUpsert ns v d)" "\<not> faults w n (DbDelete ns v)"
    "\<not> faults w n DbBegin" "\<not> faults w n (TxCommit tx)" "\<not> faults w n (TxRollback tx)"
  using assms by (auto simp: only_scripts_fail_def)

lemma only_scripts_fail_os:
  assumes "only_scripts_fail w"
  shows "os_reliable w"
  unfolding os_reliable_def
proof (intro allI impI notI)
  fix n c assume o: "is_os_call c" and "faults w n c"
  with assms obtain tx sql where "c = TxExec tx sql"
    unfolding only_scripts_fail_def by blast
  with o show False by (simp add: is_os_call_def)
qed

lemma no_faults_only_scripts: "no_faults w \<Longrightarrow> only_scripts_fail w"
  by (simp add: no_faults_def only_scripts_fail_def)

lemma only_scripts_fail_frame: "run_frame w w' \<Longrightarrow> only_scripts_fail w' = only_scripts_fail w"
  by (simp add: run_frame_def only_scripts_fail_def)

lemma no_faults_frame: "run_frame w w' \<Longrightarrow> no_faults w' = no_faults w"
  by (simp add: run_frame_def no_faults_def)

lemma upsert_upsert [simp]: "upsert ns v d' (upsert ns v d rs) = upsert ns v d' rs"
  by (induction rs) auto

lemma upsert_absent:
  "\<forall>r \<in> set rs. \<not> (row_namespace r = ns \<and> row_version r = v)
   \<Longrightarrow> upsert ns v d rs = rs @ [\<lparr>row_namespace = ns, row_version = v, row_dirty = d\<rparr>]"
  by (induction rs) auto

lemma upsert_keeps_clean:
  "\<lparr>row_namespace = ns, row_version = v, row_dirty = False\<rparr> \<in> set rs
   \<Longrightarrow> \<lparr>row_namespace = ns, row_version = v, row_dirty = False\<rparr> \<in> set (upsert ns' v' False rs)"
  by (induction rs) auto

lemma upsert_mem: "\<lparr>row_namespace = ns, row_version = v, row_dirty = d\<rparr> \<in> set (upsert ns v d rs)"
  by (induction rs) auto

text \<open>A single-version apply unit whose script succeeds, and one whose script fails.\<close>

lemma applyMigration_ok:
  assumes "only_scripts_fail w" and "table w = Some rows"
    and "\<forall>n. \<not> faults w n (TxExec (next_tx w) (UpSQL mig))"
  shows "fst (applyMigration mig w) = None"
    and "table (snd (applyMigration mig w))
           = Some (upsert (Namespace mig) (Version mig) False rows)"
    and "committed (snd (applyMigration mig w)) = committed w @ [UpSQL mig]"
    and "next_tx (snd (applyMigration mig w)) = Suc (next_tx w)"
    and "calls_since w (snd (applyMigration mig w))
           = [(DbBegin, Succeeded),
              (DbUpsert (Namespace mig) (Version mig) True, Succeeded),
              (TxExec (next_tx w) (UpSQL mig), Succeeded),
              (DbUpsert (Namespace mig) (Version mig) False, Succeeded),
              (TxCommit (next_tx w), Succeeded)]"
    and "map_of (open_txs (snd (applyMigration mig w))) (next_tx w) = None"
  using assms
  by (simp_all add: applyMigration_def BeginTxx_def setVersion_def tx_ExecContext_def
        tx_Commit_def tx_scripts_def fails_def calls_since_def Let_def)

lemma applyMigration_script_fails:
  assumes "only_scripts_fail w" and "table w = Some rows"
    and "\<forall>n. faults w n (TxExec (next_tx w) (UpSQL mig))"
  shows "fst (applyMigration mig w)
           = Some (Wrap ExecSQLCtx (CallError (TxExec (next_tx w) (UpSQL mig))))"
    and "table (snd (applyMigration mig w))
           = Some (upsert (Namespace mig) (Version mig) True rows)"
    and "committed (snd (applyMigration mig w)) = committed w"
    and "calls_since w (snd (applyMigration mig w))
           = [(DbBegin, Succeeded),
              (DbUpsert (Namespace mig) (Version mig) True, Succeeded),
              (TxExec (next_tx w) (UpSQL mig), Failed),
              (TxRollback (next_tx w), Succeeded)]"
    and "map_of (open_txs (snd (applyMigration mig w))) (next_tx w) = None"
  using assms
  by (simp_all add: applyMigration_def BeginTxx_def setVersion_def tx_ExecContext_def
        fails_def calls_since_def Let_def)

lemma rollbackMigration_ok:
  assumes "only_scripts_fail w" and "table w = Some rows" and "DownSQL mig \<noteq> []"
    and "\<forall>n. \<not> faults w n (TxExec (next_tx w) (DownSQL mig))"
  shows "fst (rollbackMigration mig w) = None"
    and "table (snd (rollbackMigration mig w))
           = Some (delete_rows (Namespace mig) (Version mig) rows)"
    and "committed (snd (rollbackMigration mig w)) = committed w @ [DownSQL mig]"
    and "next_tx (snd (rollbackMigration mig w)) = Suc (next_tx w)"
    and "calls_since w (snd (rollbackMigration mig w))
           = [(DbBegin, Succeeded),
              (TxExec (next_tx w) (DownSQL mig), Succeeded),
              (DbDelete (Namespace mig) (Version mig), Succeeded),
              (TxCommit (next_tx w), Succeeded)]"
  using assms
  by (simp_all add: rollbackMigration_def BeginTxx_def deleteVersion_def tx_ExecContext_def
        tx_Commit_def tx_scripts_def fails_def calls_since_def Let_def)

lemma is_os_not_unit: "is_os_call c \<Longrightarrow> \<not> is_unit_call c"
  by (cases c) (simp_all add: is_os_call_def is_unit_call_def)

lemma os_frame_calls:
  "os_frame w w' \<Longrightarrow> \<forall>p \<in> set (calls_since w w'). is_os_call (fst p)"
  by (auto simp: os_frame_def calls_since_def)

lemma getCurrentVersion_ok:
  assumes "\<not> fails w (DbQueryCurrent ns)" and "table w = Some rows"
  shows "\<exists>out. getCurrentVersion ns w
           = (Inr (current_version ns rows), log_call (DbQueryCurrent ns) out w)"
  using assms by (auto simp: getCurrentVersion_def current_version_def Let_def split: option.splits)

lemma MigrateNamespace_preamble:
  assumes "only_scripts_fail w" and "fst (loadMigrationFiles N w) = Inr ms"
    and "current_version N (rows_of w) = (cv, False)"
  shows "\<exists>w3. preamble w w3
           \<and> MigrateNamespace N w
               = (if filter (\<lambda>mig. cv < Version mig) ms = [] then (None, w3)
                  else applyPending (filter (\<lambda>mig. cv < Version mig) ms) w3)"
proof -
  define w1 where "w1 = log_call DbEnsureTable Succeeded (w\<lparr>table := Some (rows_of w)\<rparr>)"
  have e: "ensureMigrationsTable w = (None, w1)"
    using assms(1) by (simp add: ensureMigrationsTable_def w1_def rows_of_def fails_def)
  have f1: "run_frame w w1" by (simp add: w1_def run_frame_log_callI)
  have c1: "calls_since w w1 = [(DbEnsureTable, Succeeded)]"
    by (simp add: w1_def calls_since_def)
  have "\<not> fails w1 (DbQueryCurrent N)" using assms(1) by (simp add: fails_def w1_def)
  moreover have "table w1 = Some (rows_of w)" by (simp add: w1_def)
  ultimately obtain out where
    g: "getCurrentVersion N w1 = (Inr (cv, False), log_call (DbQueryCurrent N) out w1)"
    using getCurrentVersion_ok [of w1 N "rows_of w"] assms(3) by auto
  define w2 where "w2 = log_call (DbQueryCurrent N) out w1"
  have f2: "run_frame w1 w2" by (simp add: w2_def)
  have c2: "calls_since w1 w2 = [(DbQueryCurrent N, out)]" by (simp add: w2_def calls_since_def)
  have f12: "run_frame w w2" using f1 f2 by (rule run_frame_trans)
  have "os_reliable w" using assms(1) by (rule only_scripts_fail_os)
  moreover have "os_reliable w2"
    using f12 assms(1) only_scripts_fail_frame only_scripts_fail_os by blast
  moreover have "fs w = fs w2" using f12 by (simp add: run_frame_def)
  ultimately have "fst (loadMigrationFiles N w2) = Inr ms"
    using loadMigrationFiles_indep [of w w2 N] assms(2) by simp
  then obtain w3 where l: "loadMigrationFiles N w2 = (Inr ms, w3)"
    by (cases "loadMigrationFiles N w2") simp
  then have o3: "os_frame w2 w3" by (rule loadMigrationFiles_frame)
  then have f3: "run_frame w2 w3" by (rule os_frame_run_frame)
  have c: "calls_since w w3 = calls_since w w1 @ calls_since w1 w2 @ calls_since w2 w3"
    using calls_since_trans [OF f12 f3] calls_since_trans [OF f1 f2] by simp
  have "preamble w w3"
    unfolding preamble_def
  proof (intro conjI)
    show "run_frame w w3" using f12 f3 by (rule run_frame_trans)
    show "table w3 = Some (rows_of w)" using o3 by (simp add: os_frame_def w2_def w1_def)
    show "committed w3 = committed w" using o3 by (simp add: os_frame_def w2_def w1_def)
    show "open_txs w3 = open_txs w" using o3 by (simp add: os_frame_def w2_def w1_def)
    show "next_tx w3 = next_tx w" using o3 by (simp add: os_frame_def w2_def w1_def)
    show "\<forall>p \<in> set (calls_since w w3). \<not> is_unit_call (fst p)"
      using os_frame_calls [OF o3] is_os_not_unit
      by (auto simp: c c1 c2 is_unit_call_def)
  qed
  moreover have "MigrateNamespace N w
               = (if filter (\<lambda>mig. cv < Version mig) ms = [] then (None, w3)
                  else applyPending (filter (\<lambda>mig. cv < Version mig) ms) w3)"
    using e g l by (cases ms) (simp_all add: MigrateNamespace_def w2_def Let_def)
  ultimately show ?thesis by blast
qed

lemma Rollback_preamble:
  assumes "only_scripts_fail w" and "table w = Some rows"
    and "fst (loadMigrationFiles N w) = Inr ms"
    and "current_version N rows = (cv, False)" and "cv \<noteq> 0"
  shows "\<exists>w2. preamble w w2
           \<and> Rollback N steps w
               = (if selectRollback (rev ms) cv steps [] = [] then (None, w2)
                  else rollbackEach (selectRollback (rev ms) cv steps []) w2)"
proof -
  have "\<not> fails w (DbQueryCurrent N)" using assms(1) by (simp add: fails_def)
  then obtain out where
    g: "getCurrentVersion N w = (Inr (cv, False), log_call (DbQueryCurrent N) out w)"
    using getCurrentVersion_ok [of w N rows] assms(2,4) by auto
  define w1 where "w1 = log_call (DbQueryCurrent N) out w"
  have f1: "run_frame w w1" by (simp add: w1_def)
  have c1: "calls_since w w1 = [(DbQueryCurrent N, out)]" by (simp add: w1_def calls_since_def)
  have "os_reliable w" using assms(1) by (rule only_scripts_fail_os)
  moreover have "os_reliable w1"
    using f1 assms(1) only_scripts_fail_frame only_scripts_fail_os by blast
  moreover have "fs w = fs w1" by (simp add: w1_def)
  ultimately have "fst (loadMigrationFiles N w1) = Inr ms"
    using loadMigrationFiles_indep [of w w1 N] assms(3) by simp
  then obtain w2 where l: "loadMigrationFiles N w1 = (Inr ms, w2)"
    by (cases "loadMigrationFiles N w1") simp
  then have o2: "os_frame w1 w2" by (rule loadMigrationFiles_frame)
  then have f2: "run_frame w1 w2" by (rule os_frame_run_frame)
  have c: "calls_since w w2 = calls_since w w1 @ calls_since w1 w2"
    using calls_since_trans [OF f1 f2] .
  have "preamble w w2"
    unfolding preamble_def
  proof (intro conjI)
    show "run_frame w w2" using f1 f2 by (rule run_frame_trans)
    show "table w2 = Some (rows_of w)" using o2 assms(2) by (simp add: os_frame_def w1_def rows_of_def)
    show "committed w2 = committed w" using o2 by (simp add: os_frame_def w1_def)
    show "open_txs w2 = open_txs w" using o2 by (simp add: os_frame_def w1_def)
    show "next_tx w2 = next_tx w" using o2 by (simp add: os_frame_def w1_def)
    show "\<forall>p \<in> set (calls_since w w2). \<not> is_unit_call (fst p)"
      using os_frame_calls [OF o2] is_os_not_unit
      by (auto simp: c c1 is_unit_call_def)
  qed
  moreover have "Rollback N steps w
               = (if selectRollback (rev ms) cv steps [] = [] then (None, w2)
                  else rollbackEach (selectRollback (rev ms) cv steps []) w2)"
    using g l assms(5) by (simp add: Rollback_def w1_def Let_def)
  ultimately show ?thesis by blast
qed

subsection \<open>A failing script stops the sequence\<close>

lemma loaded_namespace:
  assumes "fst (loadMigrationFiles ns w) = Inr ms"
  shows "\<forall>m \<in> set ms. Namespace m = ns"
proof (cases "map_of (fs w) ns")
  case None
  with assms show ?thesis
    by (auto simp: loadMigrationFiles_def os_Stat_def os_ReadDir_def fails_def split: if_splits)
next
  case (Some nd)
  obtain w' where l: "loadMigrationFiles ns w = (Inr ms, w')"
    using assms by (cases "loadMigrationFiles ns w") simp
  show ?thesis
  proof (cases nd)
    case PlainFile
    with Some assms show ?thesis
      by (auto simp: loadMigrationFiles_def os_Stat_def os_ReadDir_def fails_def split: if_splits)
  next
    case (Directory ents)
    with Some loaded_migrations(4) [OF l] show ?thesis by simp
  qed
qed

lemma current_version_absent:
  "\<forall>r \<in> set rs. row_namespace r \<noteq> ns \<Longrightarrow> current_version ns rs = (0, False)"
  by (simp add: current_version_def current_row_def filter_False)

lemma pair_fst_snd: "fst p = a \<Longrightarrow> p = (a, snd p)"
  by (cases p) simp

text \<open>
  Claim C2.  Let the namespace have no record yet, let its loaded migrations begin with
  the versions 1 and 2, and let every call succeed except the execution of the script of
  version 2, which fails.  Then \<open>MigrateNamespace\<close> returns the error of that execution;
  the records of the namespace are (1, clean) and (2, dirty), after the rows of the other
  namespaces; the committed scripts have grown by the script of version 1 only; the
  transaction of version 2 was rolled back and is not open; and the calls of the run end
  with the five calls of the unit of version 1 and the four of the failed unit of
  version 2, with no call of any unit before them: no later version is attempted.
\<close>

theorem second_version_fails_first_stays:
  assumes "only_scripts_fail w"
    and "\<forall>r \<in> set (rows_of w). row_namespace r \<noteq> N"
    and "fst (loadMigrationFiles N w) = Inr (m1 # m2 # rest)"
    and "Version m1 = 1" and "Version m2 = 2"
    and "\<forall>n tx. \<not> faults w n (TxExec tx (UpSQL m1))"
    and "\<forall>n tx. faults w n (TxExec tx (UpSQL m2))"
  shows "fst (MigrateNamespace N w)
           = Some (Wrap (ApplyCtx 2)
                    (Wrap ExecSQLCtx (CallError (TxExec (Suc (next_tx w)) (UpSQL m2)))))
       \<and> rows_of (snd (MigrateNamespace N w))
           = rows_of w @ [\<lparr>row_namespace = N, row_version = 1, row_dirty = False\<rparr>,
                          \<lparr>row_namespace = N, row_version = 2, row_dirty = True\<rparr>]
       \<and> committed (snd (MigrateNamespace N w)) = committed w @ [UpSQL m1]
       \<and> map_of (open_txs (snd (MigrateNamespace N w))) (Suc (next_tx w)) = None
       \<and> (\<exists>pre. calls_since w (snd (MigrateNamespace N w))
                  = pre @ [(DbBegin, Succeeded), (DbUpsert N 1 True, Succeeded),
                           (TxExec (next_tx w) (UpSQL m1), Succeeded),
                           (DbUpsert N 1 False, Succeeded), (TxCommit (next_tx w), Succeeded),
                           (DbBegin, Succeeded), (DbUpsert N 2 True, Succeeded),
                           (TxExec (Suc (next_tx w)) (UpSQL m2), Failed),
                           (TxRollback (Suc (next_tx w)), Succeeded)]
                \<and> (\<forall>p \<in> set pre. \<not> is_unit_call (fst p)))"
proof -
  have ns: "Namespace m1 = N" "Namespace m2 = N"
    using loaded_namespace [OF assms(3)] by simp_all
  have cv: "current_version N (rows_of w) = (0, False)"
    using assms(2) by (rule current_version_absent)
  have pend: "filter (\<lambda>mig. 0 < Version mig) (m1 # m2 # rest)
                = m1 # m2 # filter (\<lambda>mig. 0 < Version mig) rest"
    using assms(4,5) by simp
  from MigrateNamespace_preamble [OF assms(1,3) cv] pend obtain w3
    where p: "preamble w w3"
      and m: "MigrateNamespace N w
                = applyPending (m1 # m2 # filter (\<lambda>mig. 0 < Version mig) rest) w3"
    by auto
  from p have f3: "run_frame w w3" and t3: "table w3 = Some (rows_of w)"
    and c3: "committed w3 = committed w" and n3: "next_tx w3 = next_tx w"
    and u3: "\<forall>p \<in> set (calls_since w w3). \<not> is_unit_call (fst p)"
    by (simp_all add: preamble_def)
  have o3: "only_scripts_fail w3" using f3 assms(1) by (simp add: only_scripts_fail_frame)
  have fa3: "faults w3 = faults w" using f3 by (simp add: run_frame_def)
  \<comment> \<open>the unit of version 1\<close>
  define w4 where "w4 = snd (applyMigration m1 w3)"
  have s1: "\<forall>n. \<not> faults w3 n (TxExec (next_tx w3) (UpSQL m1))"
    using assms(6) fa3 by simp
  note a1 = applyMigration_ok [OF o3 t3 s1, folded w4_def]
  have r1: "applyMigration m1 w3 = (None, w4)"
    using a1(1) by (simp add: w4_def pair_fst_snd)
  then have f4: "run_frame w3 w4" by (rule applyMigration_frame)
  have o4: "only_scripts_fail w4" using f4 o3 by (simp add: only_scripts_fail_frame)
  have fa4: "faults w4 = faults w" using f4 fa3 by (simp add: run_frame_def)
  \<comment> \<open>the unit of version 2\<close>
  define w5 where "w5 = snd (applyMigration m2 w4)"
  have s2: "\<forall>n. faults w4 n (TxExec (next_tx w4) (UpSQL m2))"
    using assms(7) fa4 by simp
  note a2 = applyMigration_script_fails [OF o4 a1(2) s2, folded w5_def]
  have r2: "applyMigration m2 w4
              = (Some (Wrap ExecSQLCtx (CallError (TxExec (next_tx w4) (UpSQL m2)))), w5)"
    using a2(1) by (simp add: w5_def pair_fst_snd)
  then have f5: "run_frame w4 w5" by (rule applyMigration_frame)
  have res: "MigrateNamespace N w
      = (Some (Wrap (ApplyCtx 2)
                 (Wrap ExecSQLCtx (CallError (TxExec (Suc (next_tx w)) (UpSQL m2))))), w5)"
    using m r1 r2 a1(4) n3 assms(5) by simp
  have rows: "rows_of w5
       = rows_of w @ [\<lparr>row_namespace = N, row_version = 1, row_dirty = False\<rparr>,
                      \<lparr>row_namespace = N, row_version = 2, row_dirty = True\<rparr>]"
    using a2(2) assms(2,4,5) ns by (simp add: rows_of_def upsert_absent)
  have calls: "calls_since w w5 = calls_since w w3 @ calls_since w3 w4 @ calls_since w4 w5"
    using calls_since_trans [OF run_frame_trans [OF f3 f4] f5] calls_since_trans [OF f3 f4]
    by simp
  show ?thesis
    unfolding res fst_conv snd_conv
  proof (intro conjI)
    show "rows_of w5
       = rows_of w @ [\<lparr>row_namespace = N, row_version = 1, row_dirty = False\<rparr>,
                      \<lparr>row_namespace = N, row_version = 2, row_dirty = True\<rparr>]"
      by (rule rows)
    show "committed w5 = committed w @ [UpSQL m1]" using a2(3) a1(3) c3 by simp
    show "map_of (open_txs w5) (Suc (next_tx w)) = None" using a2(5) a1(4) n3 by simp
    show "\<exists>pre. calls_since w w5
                  = pre @ [(DbBegin, Succeeded), (DbUpsert N 1 True, Succeeded),
                           (TxExec (next_tx w) (UpSQL m1), Succeeded),
                           (DbUpsert N 1 False, Succeeded), (TxCommit (next_tx w), Succeeded),
                           (DbBegin, Succeeded), (DbUpsert N 2 True, Succeeded),
                           (TxExec (Suc (next_tx w)) (UpSQL m2), Failed),
                           (TxRollback (Suc (next_tx w)), Succeeded)]
                \<and> (\<forall>p \<in> set pre. \<not> is_unit_call (fst p))"
      using u3 calls a1(5) a2(4) a1(4) n3 ns assms(4,5)
      by (intro exI [of _ "calls_since w w3"]) simp
  qed simp
qed

lemma loadMigrationFiles_v2_fails:
  "fst (loadMigrationFiles ''core'' v2_fails_world) = Inr [mig_a, mig_b, mig_c]"
  by (simp add: v2_fails_world_def mig_a_def mig_b_def mig_c_def loadMigrationFiles_def
        os_Stat_def os_ReadDir_def os_ReadFile_def file_content_def fails_def loadFile_def
        Atoi_def digit_def HasSuffix_def TrimSuffix_def getOrNew_def newMigrationFile_def
        Let_def)

theorem second_version_fails_first_stays_witness:
  "only_scripts_fail v2_fails_world
   \<and> fst (loadMigrationFiles ''core'' v2_fails_world) = Inr [mig_a, mig_b, mig_c]
   \<and> Version mig_a = 1 \<and> Version mig_b = 2
   \<and> fst (MigrateNamespace ''core'' v2_fails_world)
       = Some (Wrap (ApplyCtx 2) (Wrap ExecSQLCtx (CallError (TxExec 1 ''CREATE B''))))
   \<and> rows_of (snd (MigrateNamespace ''core'' v2_fails_world))
       = [\<lparr>row_namespace = ''core'', row_version = 1, row_dirty = False\<rparr>,
          \<lparr>row_namespace = ''core'', row_version = 2, row_dirty = True\<rparr>]
   \<and> committed (snd (MigrateNamespace ''core'' v2_fails_world)) = [''CREATE A'']"
proof -
  have h1: "only_scripts_fail v2_fails_world"
    by (auto simp: only_scripts_fail_def v2_fails_world_def split: call.splits)
  have h2: "\<forall>r \<in> set (rows_of v2_fails_world). row_namespace r \<noteq> ''core''"
    by (simp add: rows_of_def v2_fails_world_def)
  have h4: "Version mig_a = 1" and h5: "Version mig_b = 2"
    by (simp_all add: mig_a_def mig_b_def)
  have h6: "\<forall>n tx. \<not> faults v2_fails_world n (TxExec tx (UpSQL mig_a))"
    by (simp add: v2_fails_world_def mig_a_def)
  have h7: "\<forall>n tx. faults v2_fails_world n (TxExec tx (UpSQL mig_b))"
    by (simp add: v2_fails_world_def mig_b_def)
  from second_version_fails_first_stays [OF h1 h2 loadMigrationFiles_v2_fails h4 h5 h6 h7]
    h1 loadMigrationFiles_v2_fails h4 h5
  show ?thesis by (simp add: v2_fails_world_def rows_of_def mig_a_def mig_b_def)
qed

subsection \<open>A version with a down-file only\<close>

lemma entry_version_Some:
  "(entry_version fl = Some v)
     = (\<exists>content. snd fl = RegFile content \<and> CHR ''_'' \<in> set (fst fl)
          \<and> Atoi (takeWhile (\<lambda>x. x \<noteq> CHR ''_'') (fst fl)) = Some v
          \<and> (HasSuffix (fst fl) ''.up.sql'' \<or> HasSuffix (fst fl) ''.down.sql''))"
proof -
  have "(length (Split (fst fl) CHR ''_'') < 2) = (CHR ''_'' \<notin> set (fst fl))"
    using Split_two [of "fst fl" "CHR ''_''"] by (simp add: not_le [symmetric])
  then show ?thesis
    by (cases "snd fl") (auto simp: entry_version_def hd_Split)
qed

lemma upsert_keeps_clean_row:
  "r \<in> set rs \<Longrightarrow> \<not> row_dirty r \<Longrightarrow> r \<in> set (upsert ns v False rs)"
  by (induction rs) auto

lemma applyPending_no_faults:
  assumes "no_faults w" and "table w = Some rows"
  shows "fst (applyPending migs w) = None
       \<and> (\<forall>r \<in> set rows. \<not> row_dirty r \<longrightarrow> r \<in> set (rows_of (snd (applyPending migs w))))
       \<and> (\<forall>m \<in> set migs.
             \<lparr>row_namespace = Namespace m, row_version = Version m, row_dirty = False\<rparr>
               \<in> set (rows_of (snd (applyPending migs w)))
             \<and> (\<exists>tx. (TxExec tx (UpSQL m), Succeeded)
                       \<in> set (calls_since w (snd (applyPending migs w)))))"
  using assms
proof (induction migs arbitrary: w rows)
  case Nil
  then show ?case by (simp add: rows_of_def)
next
  case (Cons mig migs)
  have o: "only_scripts_fail w" using Cons.prems(1) by (rule no_faults_only_scripts)
  have s: "\<forall>n. \<not> faults w n (TxExec (next_tx w) (UpSQL mig))"
    using Cons.prems(1) by (simp add: no_faults_def)
  define w1 where "w1 = snd (applyMigration mig w)"
  note a = applyMigration_ok [OF o Cons.prems(2) s, folded w1_def]
  have r: "applyMigration mig w = (None, w1)" using a(1) by (simp add: w1_def pair_fst_snd)
  then have f1: "run_frame w w1" by (rule applyMigration_frame)
  then have n1: "no_faults w1" using Cons.prems(1) by (simp add: no_faults_frame)
  define w2 where "w2 = snd (applyPending migs w1)"
  note ih = Cons.IH [OF n1 a(2), folded w2_def]
  have f2: "run_frame w1 w2"
    unfolding w2_def by (intro applyPending_frame) (rule surjective_pairing)
  have eq: "applyPending (mig # migs) w = (fst (applyPending migs w1), w2)"
    using r by (simp add: w2_def)
  have cs: "calls_since w w2 = calls_since w w1 @ calls_since w1 w2"
    using f1 f2 by (rule calls_since_trans)
  show ?case
    unfolding eq fst_conv snd_conv
  proof (intro conjI ballI impI)
    show "fst (applyPending migs w1) = None" using ih by simp
  next
    fix r assume "r \<in> set rows" "\<not> row_dirty r"
    then have "r \<in> set (upsert (Namespace mig) (Version mig) False rows)"
      by (rule upsert_keeps_clean_row)
    with ih \<open>\<not> row_dirty r\<close> show "r \<in> set (rows_of w2)" by simp
  next
    fix m assume "m \<in> set (mig # migs)"
    then consider "m = mig" | "m \<in> set migs" by auto
    then show "\<lparr>row_namespace = Namespace m, row_version = Version m, row_dirty = False\<rparr>
                 \<in> set (rows_of w2)"
    proof cases
      case 1
      have "\<lparr>row_namespace = Namespace mig, row_version = Version mig, row_dirty = False\<rparr>
              \<in> set (upsert (Namespace mig) (Version mig) False rows)"
        by (rule upsert_mem)
      with ih 1 show ?thesis by simp
    next
      case 2
      with ih show ?thesis by simp
    qed
  next
    fix m assume "m \<in> set (mig # migs)"
    then consider "m = mig" | "m \<in> set migs" by auto
    then show "\<exists>tx. (TxExec tx (UpSQL m), Succeeded) \<in> set (calls_since w w2)"
    proof cases
      case 1
      with a(5) cs show ?thesis by auto
    next
      case 2
      with ih cs show ?thesis by auto
    qed
  qed
qed

text \<open>
  Claim C10.  Let the directory of a namespace hold a down-file for the version \<open>v\<close> and no
  up-file for it, and let every call succeed.  Then the loaded migrations contain one for
  \<open>v\<close>, with an empty up-script.  If \<open>v\<close> is greater than the current version of the
  namespace, which is not dirty, \<open>MigrateNamespace\<close> succeeds, a transaction executes the
  empty script, and the table holds the record of \<open>v\<close> with \<open>dirty = False\<close>.
\<close>

theorem down_only_version_is_applied:
  assumes "no_faults w"
    and "map_of (fs w) N = Some (Directory ents)"
    and "fst (loadMigrationFiles N w) = Inr ms"
    and "(filename, RegFile content) \<in> set ents"
    and "CHR ''_'' \<in> set filename"
    and "Atoi (takeWhile (\<lambda>x. x \<noteq> CHR ''_'') filename) = Some v"
    and "HasSuffix filename ''.down.sql''"
    and "\<forall>name c. (name, RegFile c) \<in> set ents \<and> HasSuffix name ''.up.sql''
           \<longrightarrow> Atoi (takeWhile (\<lambda>x. x \<noteq> CHR ''_'') name) \<noteq> Some v"
    and "current_version N (rows_of w) = (cv, False)" and "cv < v"
  shows "(\<exists>m \<in> set ms. Version m = v \<and> UpSQL m = [])
       \<and> fst (MigrateNamespace N w) = None
       \<and> (\<exists>tx. (TxExec tx [], Succeeded) \<in> set (calls_since w (snd (MigrateNamespace N w))))
       \<and> \<lparr>row_namespace = N, row_version = v, row_dirty = False\<rparr>
           \<in> set (rows_of (snd (MigrateNamespace N w)))"
proof -
  obtain w0 where l: "loadMigrationFiles N w = (Inr ms, w0)"
    using assms(3) by (cases "loadMigrationFiles N w") simp
  note lm = loaded_migrations [OF l assms(2)]
  have "entry_version (filename, RegFile content) = Some v"
    using assms(5,6,7) by (simp add: entry_version_Some)
  with assms(4) lm(1) have "v \<in> set (map Version ms)" by force
  then obtain m where m: "m \<in> set ms" "Version m = v" by auto
  have up: "UpSQL m = []"
  proof (rule ccontr)
    assume "UpSQL m \<noteq> []"
    with lm(5) m obtain fl where "fl \<in> set ents" "HasSuffix (fst fl) ''.up.sql''"
      "entry_version fl = Some v" by blast
    then obtain c where "(fst fl, RegFile c) \<in> set ents"
      "Atoi (takeWhile (\<lambda>x. x \<noteq> CHR ''_'') (fst fl)) = Some v"
      by (auto simp: entry_version_Some) (metis prod.collapse)
    with assms(8) \<open>HasSuffix (fst fl) ''.up.sql''\<close> show False by blast
  qed
  have nsm: "Namespace m = N" using lm(4) m by simp
  have o: "only_scripts_fail w" using assms(1) by (rule no_faults_only_scripts)
  have pm: "m \<in> set (filter (\<lambda>mig. cv < Version mig) ms)" using m assms(10) by simp
  then have ne: "filter (\<lambda>mig. cv < Version mig) ms \<noteq> []"
    by (metis empty_iff list.set(1))
  from MigrateNamespace_preamble [OF o assms(3,9)] ne obtain w3
    where p: "preamble w w3"
      and mn: "MigrateNamespace N w = applyPending (filter (\<lambda>mig. cv < Version mig) ms) w3"
    by auto
  from p have f3: "run_frame w w3" and t3: "table w3 = Some (rows_of w)"
    by (simp_all add: preamble_def)
  have n3: "no_faults w3" using f3 assms(1) by (simp add: no_faults_frame)
  note ap = applyPending_no_faults [OF n3 t3, of "filter (\<lambda>mig. cv < Version mig) ms",
      folded mn]
  have f4: "run_frame w3 (snd (MigrateNamespace N w))"
    unfolding mn by (intro applyPending_frame) (rule surjective_pairing)
  from ap pm obtain tx where
    "(TxExec tx (UpSQL m), Succeeded) \<in> set (calls_since w3 (snd (MigrateNamespace N w)))"
    by blast
  then have "(TxExec tx [], Succeeded) \<in> set (calls_since w (snd (MigrateNamespace N w)))"
    using up calls_since_mono [OF f3 f4] by simp
  moreover have "\<lparr>row_namespace = N, row_version = v, row_dirty = False\<rparr>
           \<in> set (rows_of (snd (MigrateNamespace N w)))"
    using ap pm m nsm by fastforce
  ultimately show ?thesis using ap m up by blast
qed

lemma loadMigrationFiles_down_only:
  "fst (loadMigrationFiles ''core'' down_only_world) = Inr down_only_loaded"
  by (simp add: down_only_world_def down_only_dir_def down_only_loaded_def
        loadMigrationFiles_def os_Stat_def os_ReadDir_def os_ReadFile_def file_content_def
        fails_def loadFile_def Atoi_def digit_def HasSuffix_def TrimSuffix_def getOrNew_def
        newMigrationFile_def Let_def)

theorem down_only_version_is_applied_witness:
  "no_faults down_only_world
   \<and> map_of (fs down_only_world) ''core'' = Some (Directory down_only_dir)
   \<and> fst (loadMigrationFiles ''core'' down_only_world) = Inr down_only_loaded
   \<and> (''2_b.down.sql'', RegFile ''DROP B'') \<in> set down_only_dir
   \<and> Atoi (takeWhile (\<lambda>x. x \<noteq> CHR ''_'') ''2_b.down.sql'') = Some 2
   \<and> current_version ''core'' (rows_of down_only_world) = (0, False)
   \<and> (\<exists>m \<in> set down_only_loaded. Version m = 2 \<and> UpSQL m = [])
   \<and> fst (MigrateNamespace ''core'' down_only_world) = None
   \<and> \<lparr>row_namespace = ''core'', row_version = 2, row_dirty = False\<rparr>
       \<in> set (rows_of (snd (MigrateNamespace ''core'' down_only_world)))"
proof -
  have h1: "no_faults down_only_world" by (simp add: no_faults_def down_only_world_def)
  have h2: "map_of (fs down_only_world) ''core'' = Some (Directory down_only_dir)"
    by (simp add: down_only_world_def)
  have h4: "(''2_b.down.sql'', RegFile ''DROP B'') \<in> set down_only_dir"
    by (simp add: down_only_dir_def)
  have h5: "CHR ''_'' \<in> set ''2_b.down.sql''" by simp
  have h6: "Atoi (takeWhile (\<lambda>x. x \<noteq> CHR ''_'') ''2_b.down.sql'') = Some 2"
    by (simp add: Atoi_def digit_def)
  have h7: "HasSuffix ''2_b.down.sql'' ''.down.sql''" by (simp add: HasSuffix_def)
  have h8: "\<forall>name c. (name, RegFile c) \<in> set down_only_dir \<and> HasSuffix name ''.up.sql''
           \<longrightarrow> Atoi (takeWhile (\<lambda>x. x \<noteq> CHR ''_'') name) \<noteq> Some 2"
    by (auto simp: down_only_dir_def HasSuffix_def Atoi_def digit_def)
  have h9: "current_version ''core'' (rows_of down_only_world) = (0, False)"
    by (simp add: current_version_def current_row_def rows_of_def down_only_world_def)
  have h10: "(0::int) < 2" by simp
  from down_only_version_is_applied
         [OF h1 h2 loadMigrationFiles_down_only h4 h5 h6 h7 h8 h9 h10]
    h1 h2 loadMigrationFiles_down_only h4 h6 h9
  show ?thesis by blast
qed

subsection \<open>Apply, roll back, apply again\<close>

lemma applyPending_state:
  assumes "no_faults w" and "table w = Some rows"
  shows "fst (applyPending migs w) = None
       \<and> table (snd (applyPending migs w))
           = Some (foldl (\<lambda>rs m. upsert (Namespace m) (Version m) False rs) rows migs)
       \<and> committed (snd (applyPending migs w)) = committed w @ map UpSQL migs"
  using assms
proof (induction migs arbitrary: w rows)
  case Nil
  then show ?case by simp
next
  case (Cons mig migs)
  have o: "only_scripts_fail w" using Cons.prems(1) by (rule no_faults_only_scripts)
  have s: "\<forall>n. \<not> faults w n (TxExec (next_tx w) (UpSQL mig))"
    using Cons.prems(1) by (simp add: no_faults_def)
  define w1 where "w1 = snd (applyMigration mig w)"
  note a = applyMigration_ok [OF o Cons.prems(2) s, folded w1_def]
  have r: "applyMigration mig w = (None, w1)" using a(1) by (simp add: w1_def pair_fst_snd)
  then have "run_frame w w1" by (rule applyMigration_frame)
  then have n1: "no_faults w1" using Cons.prems(1) by (simp add: no_faults_frame)
  from Cons.IH [OF n1 a(2)] r a(3) show ?case by simp
qed

lemma rollbackEach_state:
  assumes "no_faults w" and "table w = Some rows" and "\<forall>m \<in> set migs. DownSQL m \<noteq> []"
  shows "fst (rollbackEach migs w) = None
       \<and> table (snd (rollbackEach migs w))
           = Some (foldl (\<lambda>rs m. delete_rows (Namespace m) (Version m) rs) rows migs)
       \<and> committed (snd (rollbackEach migs w)) = committed w @ map DownSQL migs"
  using assms
proof (induction migs arbitrary: w rows)
  case Nil
  then show ?case by simp
next
  case (Cons mig migs)
  have o: "only_scripts_fail w" using Cons.prems(1) by (rule no_faults_only_scripts)
  have s: "\<forall>n. \<not> faults w n (TxExec (next_tx w) (DownSQL mig))"
    using Cons.prems(1) by (simp add: no_faults_def)
  have d: "DownSQL mig \<noteq> []" using Cons.prems(3) by simp
  define w1 where "w1 = snd (rollbackMigration mig w)"
  note a = rollbackMigration_ok [OF o Cons.prems(2) d s, folded w1_def]
  have r: "rollbackMigration mig w = (None, w1)" using a(1) by (simp add: w1_def pair_fst_snd)
  then have "run_frame w w1" by (rule rollbackMigration_frame)
  then have n1: "no_faults w1" using Cons.prems(1) by (simp add: no_faults_frame)
  have "\<forall>m \<in> set migs. DownSQL m \<noteq> []" using Cons.prems(3) by simp
  from Cons.IH [OF n1 a(2) this] r a(3) show ?case by simp
qed

lemma delete_rows_simps [simp]:
  "delete_rows ns v [] = []"
  "delete_rows ns v (r # rs)
     = (if row_namespace r = ns \<and> row_version r = v then delete_rows ns v rs
        else r # delete_rows ns v rs)"
  "delete_rows ns v (rs @ rs') = delete_rows ns v rs @ delete_rows ns v rs'"
  by (simp_all add: delete_rows_def)

lemma delete_rows_other:
  "\<forall>r \<in> set rs. row_namespace r \<noteq> ns \<Longrightarrow> delete_rows ns v rs = rs"
  by (induction rs) simp_all

text \<open>
  Applying the namespace from a table without rows for it: the three records are
  appended.
\<close>

lemma MigrateNamespace_three:
  assumes "no_faults w"
    and "\<forall>r \<in> set (rows_of w). row_namespace r \<noteq> N"
    and "fst (loadMigrationFiles N w) = Inr [m1, m2, m3]"
    and "Version m1 = 1" and "Version m2 = 2" and "Version m3 = 3"
  shows "fst (MigrateNamespace N w) = None"
    and "table (snd (MigrateNamespace N w))
           = Some (rows_of w @ [\<lparr>row_namespace = N, row_version = 1, row_dirty = False\<rparr>,
                                \<lparr>row_namespace = N, row_version = 2, row_dirty = False\<rparr>,
                                \<lparr>row_namespace = N, row_version = 3, row_dirty = False\<rparr>])"
    and "committed (snd (MigrateNamespace N w)) = committed w @ [UpSQL m1, UpSQL m2, UpSQL m3]"
proof -
  have ns: "Namespace m1 = N" "Namespace m2 = N" "Namespace m3 = N"
    using loaded_namespace [OF assms(3)] by simp_all
  have o: "only_scripts_fail w" using assms(1) by (rule no_faults_only_scripts)
  have cv: "current_version N (rows_of w) = (0, False)"
    using assms(2) by (rule current_version_absent)
  have pend: "filter (\<lambda>mig. 0 < Version mig) [m1, m2, m3] = [m1, m2, m3]"
    using assms(4,5,6) by simp
  from MigrateNamespace_preamble [OF o assms(3) cv] pend obtain wa
    where p: "preamble w wa" and m: "MigrateNamespace N w = applyPending [m1, m2, m3] wa"
    by auto
  from p have fa: "run_frame w wa" and ta: "table wa = Some (rows_of w)"
    and ca: "committed wa = committed w" by (simp_all add: preamble_def)
  have na: "no_faults wa" using fa assms(1) by (simp add: no_faults_frame)
  note st = applyPending_state [OF na ta, of "[m1, m2, m3]", folded m]
  show "fst (MigrateNamespace N w) = None" using st by simp
  show "committed (snd (MigrateNamespace N w)) = committed w @ [UpSQL m1, UpSQL m2, UpSQL m3]"
    using st ca by simp
  show "table (snd (MigrateNamespace N w))
           = Some (rows_of w @ [\<lparr>row_namespace = N, row_version = 1, row_dirty = False\<rparr>,
                                \<lparr>row_namespace = N, row_version = 2, row_dirty = False\<rparr>,
                                \<lparr>row_namespace = N, row_version = 3, row_dirty = False\<rparr>])"
    using st assms(2,4,5,6) ns by (simp add: upsert_absent)
qed

text \<open>
  Claim C4.  Let the namespace have no record, let its directory load as the versions 1,
  2 and 3 with non-empty down-scripts, and let every call succeed.  Then
  \<open>MigrateNamespace\<close> appends the three clean records; \<open>Rollback\<close> by 3 steps after it
  leaves the table as it was at the start and the current version 0; and
  \<open>MigrateNamespace\<close> after that leaves exactly the table of the first apply.
\<close>

theorem apply_rollback_apply_round_trip:
  assumes "no_faults w"
    and "\<forall>r \<in> set (rows_of w). row_namespace r \<noteq> N"
    and "fst (loadMigrationFiles N w) = Inr [m1, m2, m3]"
    and "Version m1 = 1" and "Version m2 = 2" and "Version m3 = 3"
    and "DownSQL m1 \<noteq> []" and "DownSQL m2 \<noteq> []" and "DownSQL m3 \<noteq> []"
  shows "(let w1 = snd (MigrateNamespace N w);
              w2 = snd (Rollback N 3 w1);
              w3 = snd (MigrateNamespace N w2)
          in fst (MigrateNamespace N w) = None
             \<and> rows_of w1
                 = rows_of w @ [\<lparr>row_namespace = N, row_version = 1, row_dirty = False\<rparr>,
                                \<lparr>row_namespace = N, row_version = 2, row_dirty = False\<rparr>,
                                \<lparr>row_namespace = N, row_version = 3, row_dirty = False\<rparr>]
             \<and> fst (Rollback N 3 w1) = None
             \<and> rows_of w2 = rows_of w
             \<and> fst (Version_of N w2) = Inr 0
             \<and> fst (MigrateNamespace N w2) = None
             \<and> table w3 = table w1
             \<and> committed w3
                 = committed w @ [UpSQL m1, UpSQL m2, UpSQL m3, DownSQL m3, DownSQL m2,
                                  DownSQL m1, UpSQL m1, UpSQL m2, UpSQL m3])"
proof -
  define w1 where "w1 = snd (MigrateNamespace N w)"
  define w2 where "w2 = snd (Rollback N 3 w1)"
  define w3 where "w3 = snd (MigrateNamespace N w2)"
  define rows1 where
    "rows1 = rows_of w @ [\<lparr>row_namespace = N, row_version = 1, row_dirty = False\<rparr>,
                          \<lparr>row_namespace = N, row_version = 2, row_dirty = False\<rparr>,
                          \<lparr>row_namespace = N, row_version = 3, row_dirty = False\<rparr>]"
  have ns: "Namespace m1 = N" "Namespace m2 = N" "Namespace m3 = N"
    using loaded_namespace [OF assms(3)] by simp_all
  have fN: "filter (\<lambda>r. row_namespace r = N) (rows_of w) = []"
    using assms(2) by (simp add: filter_empty_conv)
  \<comment> \<open>the first apply\<close>
  note a1 = MigrateNamespace_three [OF assms(1-6), folded w1_def rows1_def]
  have f1: "run_frame w w1"
    unfolding w1_def by (intro MigrateNamespace_frame) (rule surjective_pairing)
  have n1: "no_faults w1" using f1 assms(1) by (simp add: no_faults_frame)
  have o1: "only_scripts_fail w1" using n1 by (rule no_faults_only_scripts)
  have l1: "fst (loadMigrationFiles N w1) = Inr [m1, m2, m3]"
    using loadMigrationFiles_indep [of w w1 N] assms(1,3) n1 f1
    by (simp add: no_faults_only_scripts only_scripts_fail_os run_frame_def)
  \<comment> \<open>the rollback\<close>
  have cv1: "current_version N rows1 = (3, False)"
    by (simp add: current_version_def current_row_def rows1_def fN)
  have sel: "selectRollback (rev [m1, m2, m3]) 3 3 [] = [m3, m2, m1]"
    using assms(4,5,6) by simp
  from Rollback_preamble [OF o1 a1(2) l1 cv1, of 3] sel obtain wb
    where pb: "preamble w1 wb" and rb: "Rollback N 3 w1 = rollbackEach [m3, m2, m1] wb"
    by auto
  from pb a1(2) have fb: "run_frame w1 wb" and tb: "table wb = Some rows1"
    and cb: "committed wb = committed w1" by (simp_all add: preamble_def rows_of_def)
  have nb: "no_faults wb" using fb n1 by (simp add: no_faults_frame)
  have dn: "\<forall>m \<in> set [m3, m2, m1]. DownSQL m \<noteq> []" using assms(7,8,9) by simp
  note st2 = rollbackEach_state [OF nb tb dn, folded rb, folded w2_def]
  have t2: "table w2 = Some (rows_of w)"
    using st2 assms(4,5,6) ns by (simp add: rows1_def delete_rows_other [OF assms(2)])
  have r2: "rows_of w2 = rows_of w" using t2 by (simp add: rows_of_def)
  have f2: "run_frame w1 w2"
    unfolding w2_def by (intro Rollback_frame) (rule surjective_pairing)
  have n2: "no_faults w2" using f2 n1 by (simp add: no_faults_frame)
  have l2: "fst (loadMigrationFiles N w2) = Inr [m1, m2, m3]"
    using loadMigrationFiles_indep [of w1 w2 N] l1 n1 n2 f2
    by (simp add: no_faults_only_scripts only_scripts_fail_os run_frame_def)
  \<comment> \<open>the current version after the rollback\<close>
  have "\<not> fails w2 (DbQueryCurrent N)" using n2 by (simp add: no_faults_def fails_def)
  from getCurrentVersion_ok [OF this t2]
  have v2: "fst (Version_of N w2) = Inr 0"
    using assms(2) by (auto simp: Version_of_def current_version_absent)
  \<comment> \<open>the second apply\<close>
  have a2: "\<forall>r \<in> set (rows_of w2). row_namespace r \<noteq> N" using r2 assms(2) by simp
  note a3 = MigrateNamespace_three [OF n2 a2 l2 assms(4-6), folded w3_def, unfolded r2,
      folded rows1_def]
  have c3: "committed w3
      = committed w @ [UpSQL m1, UpSQL m2, UpSQL m3, DownSQL m3, DownSQL m2, DownSQL m1,
                       UpSQL m1, UpSQL m2, UpSQL m3]"
    using a3(3) st2 cb a1(3) by simp
  show ?thesis
    unfolding Let_def
    using a1 st2 r2 v2 a3 c3
    by (simp add: w1_def [symmetric] w2_def [symmetric] w3_def [symmetric] rows_of_def
          rows1_def)
qed

lemma loadMigrationFiles_three:
  "fst (loadMigrationFiles ''core'' three_world) = Inr [three_a, three_b, three_c]"
  by (simp add: three_world_def three_a_def three_b_def three_c_def loadMigrationFiles_def
        os_Stat_def os_ReadDir_def os_ReadFile_def file_content_def fails_def loadFile_def
        Atoi_def digit_def HasSuffix_def TrimSuffix_def getOrNew_def newMigrationFile_def
        Let_def)

theorem apply_rollback_apply_round_trip_witness:
  "no_faults three_world
   \<and> rows_of three_world = []
   \<and> fst (loadMigrationFiles ''core'' three_world) = Inr [three_a, three_b, three_c]
   \<and> rows_of (snd (MigrateNamespace ''core'' three_world))
       = [\<lparr>row_namespace = ''core'', row_version = 1, row_dirty = False\<rparr>,
          \<lparr>row_namespace = ''core'', row_version = 2, row_dirty = False\<rparr>,
          \<lparr>row_namespace = ''core'', row_version = 3, row_dirty = False\<rparr>]
   \<and> rows_of (snd (Rollback ''core'' 3 (snd (MigrateNamespace ''core'' three_world)))) = []
   \<and> fst (Version_of ''core''
            (snd (Rollback ''core'' 3 (snd (MigrateNamespace ''core'' three_world))))) = Inr 0
   \<and> table (snd (MigrateNamespace ''core''
              (snd (Rollback ''core'' 3 (snd (MigrateNamespace ''core'' three_world))))))
       = table (snd (MigrateNamespace ''core'' three_world))"
proof -
  have h1: "no_faults three_world" by (simp add: no_faults_def three_world_def)
  have h0: "rows_of three_world = []" by (simp add: rows_of_def three_world_def)
  then have h2: "\<forall>r \<in> set (rows_of three_world). row_namespace r \<noteq> ''core''" by simp
  have hv: "Version three_a = 1" "Version three_b = 2" "Version three_c = 3"
    "DownSQL three_a \<noteq> []" "DownSQL three_b \<noteq> []" "DownSQL three_c \<noteq> []"
    by (simp_all add: three_a_def three_b_def three_c_def)
  from apply_rollback_apply_round_trip [OF h1 h2 loadMigrationFiles_three hv]
    h1 h0 loadMigrationFiles_three
  show ?thesis by (simp add: Let_def)
qed

end
